theory Spec2Isabelle
  imports Main "HOL-Library.AList" "HOL-Library.Sublist"
    "HOL-Library.List_Lexorder" "HOL-Library.Product_Lexorder"
begin

section \<open>Strings\<close>

text \<open>
  A Python \<open>str\<close> is a sequence of Unicode code points; it is modelled as a list of
  natural numbers, one per code point. \<open>str\<close> turns an ASCII literal into such a list.
\<close>

type_synonym pystr = "nat list"

definition str :: "string \<Rightarrow> pystr" where
  "str s = map of_char s"

text \<open>
  \<open>isspace\<close> is the set of code points that \<open>str.strip()\<close> removes when it is called
  without an argument: the ASCII white space 0x09-0x0D, 0x1C-0x1F and 0x20, and the Unicode
  white space 0x85, 0xA0, 0x1680, 0x2000-0x200A, 0x2028, 0x2029, 0x202F, 0x205F, 0x3000.
\<close>

definition isspace :: "nat \<Rightarrow> bool" where
  "isspace c \<longleftrightarrow>
     (9 \<le> c \<and> c \<le> 13) \<or> (28 \<le> c \<and> c \<le> 32) \<or> c = 133 \<or> c = 160 \<or> c = 5760 \<or>
     (8192 \<le> c \<and> c \<le> 8202) \<or> c = 8232 \<or> c = 8233 \<or> c = 8239 \<or> c = 8287 \<or> c = 12288"

definition lstrip :: "pystr \<Rightarrow> pystr" where
  "lstrip s = dropWhile isspace s"

definition rstrip :: "pystr \<Rightarrow> pystr" where
  "rstrip s = rev (dropWhile isspace (rev s))"

definition strip :: "pystr \<Rightarrow> pystr" where
  "strip s = rstrip (lstrip s)"

text \<open>
  \<open>str.lower()\<close>: the letters A-Z go to a-z. On the other code points Python applies the
  Unicode lower-case mapping, left as the identity here; the program only compares the
  result with \<open>'y'\<close>, and no code point other than \<open>Y\<close> and \<open>y\<close> lower-cases to \<open>y\<close>.
\<close>

definition lower_cp :: "nat \<Rightarrow> nat" where
  "lower_cp c = (if 65 \<le> c \<and> c \<le> 90 then c + 32 else c)"

definition lower :: "pystr \<Rightarrow> pystr" where
  "lower s = map lower_cp s"

text \<open>
  The text that a file opened in text mode can take: the file is UTF-8 with strict error
  handling, so every code point has to be a Unicode scalar value. A lone surrogate
  (0xD800-0xDFFF), which \<open>input()\<close> can return for a byte that is not UTF-8, cannot be
  encoded.
\<close>

definition utf8_encodable :: "pystr \<Rightarrow> bool" where
  "utf8_encodable s = list_all (\<lambda>c. c < 55296 \<or> (57343 < c \<and> c \<le> 1114111)) s"

text \<open>\<open>line.startswith('#')\<close>, for a one-character prefix.\<close>

fun startswith :: "pystr \<Rightarrow> nat \<Rightarrow> bool" where
  "startswith [] c = False"
| "startswith (x # xs) c = (x = c)"

text \<open>
  \<open>s.split(sep, 1)\<close> for a one-character separator: the text before the first separator
  and the text after it, or the whole text alone when there is no separator.
\<close>

definition split_maxsplit1 :: "pystr \<Rightarrow> nat \<Rightarrow> pystr list" where
  "split_maxsplit1 s sep =
     (if sep \<in> set s
      then [takeWhile (\<lambda>c. c \<noteq> sep) s, tl (dropWhile (\<lambda>c. c \<noteq> sep) s)]
      else [s])"

section \<open>The environment: files, standard input and output\<close>

text \<open>
  What the file system holds at a path, as far as \<open>open\<close> can tell:
  a regular file that can be read and written, a file that can be read only, no file
  (it can be created), no file in a directory where none can be created, and something
  that cannot be opened at all (a directory, a file without permissions).
\<close>

datatype fs_entry =
    Regular pystr
  | ReadOnly pystr
  | Missing
  | Uncreatable
  | Unopenable

datatype exc = FileNotFoundError | PermissionError | EOFError | UnicodeEncodeError

datatype fs_call = OpenRead pystr | OpenWrite pystr

text \<open>
  \<open>files\<close> is the file system, \<open>fs_log\<close> records every call of \<open>open\<close> (most recent
  last), \<open>stdout\<close> is the text written so far, \<open>stdin\<close> the lines the user will still
  type (without their line ends). Standard output has the error handler of standard
  input, so any text that was read can be printed; the backing file is stricter, see
  \<open>utf8_encodable\<close>. The text of a file is its decoded content; a file whose bytes do
  not decode is outside the model.
\<close>

record world =
  files :: "pystr \<Rightarrow> fs_entry"
  fs_log :: "fs_call list"
  stdout :: pystr
  stdin :: "pystr list"

definition py_print :: "world \<Rightarrow> pystr \<Rightarrow> world" where
  "py_print w s = w\<lparr>stdout := stdout w @ s @ [10]\<rparr>"

text \<open>\<open>input(prompt)\<close> writes the prompt and returns the next line; at end of input it raises.\<close>

definition py_input :: "world \<Rightarrow> pystr \<Rightarrow> exc + (pystr \<times> world)" where
  "py_input w prompt =
     (case stdin w of
        [] \<Rightarrow> Inl EOFError
      | l # ls \<Rightarrow> Inr (l, w\<lparr>stdout := stdout w @ prompt, stdin := ls\<rparr>))"

text \<open>\<open>open(path, 'r')\<close> returns the text of the file.\<close>

fun open_read :: "fs_entry \<Rightarrow> exc + pystr" where
  "open_read (Regular c) = Inr c"
| "open_read (ReadOnly c) = Inr c"
| "open_read Missing = Inl FileNotFoundError"
| "open_read Uncreatable = Inl FileNotFoundError"
| "open_read Unopenable = Inl PermissionError"

text \<open>\<open>open(path, 'w')\<close> creates the file or truncates it: the result is the empty file.\<close>

fun open_write :: "fs_entry \<Rightarrow> exc + pystr" where
  "open_write (Regular c) = Inr []"
| "open_write (ReadOnly c) = Inl PermissionError"
| "open_write Missing = Inr []"
| "open_write Uncreatable = Inl FileNotFoundError"
| "open_write Unopenable = Inl PermissionError"

text \<open>
  A file opened in text mode is read with universal newlines: \<open>\r\n\<close> and \<open>\r\<close> arrive
  as \<open>\n\<close>.
\<close>

fun universal_newlines :: "pystr \<Rightarrow> pystr" where
  "universal_newlines [] = []"
| "universal_newlines [c] = (if c = 13 then [10] else [c])"
| "universal_newlines (c # d # cs) =
     (if c = 13 \<and> d = 10 then 10 # universal_newlines cs
      else if c = 13 then 10 # universal_newlines (d # cs)
      else c # universal_newlines (d # cs))"

text \<open>
  \<open>for line in f\<close>: the lines of the text, each with its \<open>\n\<close>; the last one has none
  when the text does not end in \<open>\n\<close>.
\<close>

fun py_lines :: "pystr \<Rightarrow> pystr list" where
  "py_lines [] = []"
| "py_lines (c # cs) =
     (if c = 10 then [10] # py_lines cs
      else (case py_lines cs of [] \<Rightarrow> [[c]] | l # ls \<Rightarrow> (c # l) # ls))"

section \<open>EnvManager\<close>

text \<open>
  \<open>env_vars\<close> is a Python dict: an association list in insertion order, with
  \<open>AList.update\<close> for \<open>d[k] = v\<close> (a present key keeps its place, a new one goes last),
  \<open>AList.delete\<close> for \<open>del d[k]\<close> and \<open>map_of\<close> for \<open>d[k]\<close>. \<open>completer\<close> is the key
  list handed to the readline completer.
\<close>

record env_manager =
  env_file :: pystr
  env_vars :: "(pystr \<times> pystr) list"
  completer :: "pystr list"

definition setup_readline :: "env_manager \<Rightarrow> env_manager" where
  "setup_readline st = st\<lparr>completer := map fst (env_vars st)\<rparr>"

text \<open>The body of the loop of \<open>load_env_vars\<close>, for one line of the file.\<close>

definition load_line :: "pystr \<Rightarrow> (pystr \<times> pystr) list \<Rightarrow> (pystr \<times> pystr) list" where
  "load_line raw d =
     (let line = strip raw in
      if line \<noteq> [] \<and> \<not> startswith line 35
      then (case split_maxsplit1 line 61 of
              [key, value] \<Rightarrow> AList.update (strip key) (strip value) d
            | _ \<Rightarrow> d)
      else d)"

definition load_env_vars :: "world \<Rightarrow> env_manager \<Rightarrow> exc + (world \<times> env_manager)" where
  "load_env_vars w st =
     (let st1 = st\<lparr>env_vars := []\<rparr>;
          w1 = w\<lparr>fs_log := fs_log w @ [OpenRead (env_file st)]\<rparr>
      in case open_read (files w (env_file st)) of
           Inr text \<Rightarrow>
             Inr (w1, st1\<lparr>env_vars := fold load_line (py_lines (universal_newlines text)) []\<rparr>)
         | Inl FileNotFoundError \<Rightarrow>
             Inr (py_print w1 (str ''Creating new env file: '' @ env_file st), st1)
         | Inl e \<Rightarrow> Inl e)"

text \<open>The constructor \<open>EnvManager(env_file)\<close>.\<close>

definition EnvManager :: "world \<Rightarrow> pystr \<Rightarrow> exc + (world \<times> env_manager)" where
  "EnvManager w path =
     (case load_env_vars w \<lparr>env_file = path, env_vars = [], completer = []\<rparr> of
        Inl e \<Rightarrow> Inl e
      | Inr (w1, st1) \<Rightarrow> Inr (w1, setup_readline st1))"

text \<open>
  The loop of \<open>save_env_vars\<close>: \<open>f.write\<close> appends one line per entry to the text of the
  file, and raises when the line cannot be encoded.
\<close>

fun write_entries :: "(pystr \<times> pystr) list \<Rightarrow> pystr \<Rightarrow> exc + pystr" where
  "write_entries [] f = Inr f"
| "write_entries ((key, value) # entries) f =
     (if utf8_encodable (key @ [61] @ value @ [10])
      then write_entries entries (f @ key @ [61] @ value @ [10])
      else Inl UnicodeEncodeError)"

text \<open>
  \<open>save_env_vars\<close>: the file is truncated, then one line is written per entry. An
  exception ends the program; the result then carries no environment.
\<close>

definition save_env_vars :: "world \<Rightarrow> env_manager \<Rightarrow> exc + world" where
  "save_env_vars w st =
     (case open_write (files w (env_file st)) of
        Inl e \<Rightarrow> Inl e
      | Inr opened \<Rightarrow>
          (case write_entries (env_vars st) opened of
             Inl e \<Rightarrow> Inl e
           | Inr written \<Rightarrow>
               Inr (w\<lparr>files := (files w)(env_file st := Regular written),
                      fs_log := fs_log w @ [OpenWrite (env_file st)]\<rparr>)))"

definition list_vars :: "world \<Rightarrow> env_manager \<Rightarrow> world" where
  "list_vars w st =
     (if env_vars st = [] then py_print w (str ''No environment variables found.'')
      else
        (let w1 = py_print w (10 # str ''Current Environment Variables:'');
             w2 = py_print w1 (replicate 50 45);
             w3 = fold (\<lambda>(key, value) w'. py_print w' (key @ str '' = '' @ value))
                    (sort (env_vars st)) w2
         in py_print w3 (replicate 50 45)))"

definition add_var :: "world \<Rightarrow> env_manager \<Rightarrow> exc + (world \<times> env_manager)" where
  "add_var w st =
     (case py_input (py_print w (10 # str ''Press Tab for suggestions or Ctrl+C to cancel''))
             (str ''Enter key: '') of
        Inl e \<Rightarrow> Inl e
      | Inr (raw_key, w1) \<Rightarrow>
          (let key = strip raw_key in
           if key = [] then Inr (py_print w1 (str ''Key cannot be empty!''), st)
           else if key \<in> set (map fst (env_vars st))
           then Inr (py_print w1 (str ''Key already exists! Use edit option to modify.''), st)
           else
             (case py_input w1 (str ''Enter value: '') of
                Inl e \<Rightarrow> Inl e
              | Inr (raw_value, w2) \<Rightarrow>
                  (let value = strip raw_value;
                       st1 = st\<lparr>env_vars := AList.update key value (env_vars st)\<rparr>
                   in case save_env_vars w2 st1 of
                        Inl e \<Rightarrow> Inl e
                      | Inr w3 \<Rightarrow>
                          Inr (py_print w3 (str ''Added: '' @ key @ [61] @ value),
                               setup_readline st1)))))"

definition edit_var :: "world \<Rightarrow> env_manager \<Rightarrow> exc + (world \<times> env_manager)" where
  "edit_var w st =
     (case py_input
             (py_print (list_vars w st) (10 # str ''Press Tab for suggestions or Ctrl+C to cancel''))
             (str ''Enter key to edit: '') of
        Inl e \<Rightarrow> Inl e
      | Inr (raw_key, w1) \<Rightarrow>
          (let key = strip raw_key in
           case map_of (env_vars st) key of
             None \<Rightarrow> Inr (py_print w1 (str ''Key not found!''), st)
           | Some current_value \<Rightarrow>
               (case py_input (py_print w1 (str ''Current value: '' @ current_value))
                       (str ''Enter new value (press Enter to keep current): '') of
                  Inl e \<Rightarrow> Inl e
                | Inr (raw_value, w2) \<Rightarrow>
                    (let stripped = strip raw_value;
                         value = (if stripped = [] then current_value else stripped);
                         w3 = (if stripped = [] then py_print w2 (str ''Keeping current value.'')
                               else w2);
                         st1 = st\<lparr>env_vars := AList.update key value (env_vars st)\<rparr>
                     in case save_env_vars w3 st1 of
                          Inl e \<Rightarrow> Inl e
                        | Inr w4 \<Rightarrow>
                            Inr (py_print w4 (str ''Updated: '' @ key @ [61] @ value), st1)))))"

definition delete_var :: "world \<Rightarrow> env_manager \<Rightarrow> exc + (world \<times> env_manager)" where
  "delete_var w st =
     (case py_input
             (py_print (list_vars w st) (10 # str ''Press Tab for suggestions or Ctrl+C to cancel''))
             (str ''Enter key to delete: '') of
        Inl e \<Rightarrow> Inl e
      | Inr (raw_key, w1) \<Rightarrow>
          (let key = strip raw_key in
           if key \<notin> set (map fst (env_vars st))
           then Inr (py_print w1 (str ''Key not found!''), st)
           else
             (case py_input w1 (str ''Are you sure you want to delete '' @ key @ str ''? (y/N): '') of
                Inl e \<Rightarrow> Inl e
              | Inr (raw_confirm, w2) \<Rightarrow>
                  (let confirm = lower (strip raw_confirm) in
                   if confirm = str ''y''
                   then
                     (let st1 = st\<lparr>env_vars := AList.delete key (env_vars st)\<rparr>
                      in case save_env_vars w2 st1 of
                           Inl e \<Rightarrow> Inl e
                         | Inr w3 \<Rightarrow>
                             Inr (py_print w3 (str ''Deleted: '' @ key), setup_readline st1))
                   else Inr (py_print w2 (str ''Deletion cancelled.''), st)))))"

section \<open>Notions used by the properties\<close>

text \<open>A text without white space at either end: what \<open>strip\<close> leaves alone.\<close>

definition trimmed :: "pystr \<Rightarrow> bool" where
  "trimmed s \<longleftrightarrow> s = [] \<or> (\<not> isspace (hd s) \<and> \<not> isspace (last s))"

text \<open>The full serialization of a mapping: one \<open>key=value\<close> line per entry, in iteration order.\<close>

definition serialize :: "(pystr \<times> pystr) list \<Rightarrow> pystr" where
  "serialize d = concat (map (\<lambda>(key, value). key @ [61] @ value @ [10]) d)"

text \<open>A mapping whose keys and values can all be written to the file.\<close>

definition encodable_map :: "(pystr \<times> pystr) list \<Rightarrow> bool" where
  "encodable_map d = list_all (\<lambda>(key, value). utf8_encodable key \<and> utf8_encodable value) d"

text \<open>A mapping in which no key and no value has white space at either end.\<close>

definition normalized :: "(pystr \<times> pystr) list \<Rightarrow> bool" where
  "normalized d \<longleftrightarrow> (\<forall>(key, value) \<in> set d. trimmed key \<and> trimmed value)"

text \<open>
  An entry that the file can hold: key and value are trimmed, can be encoded and contain
  no line break, and the key contains no \<open>=\<close> and does not begin with \<open>#\<close>.
\<close>

definition storable :: "pystr \<times> pystr \<Rightarrow> bool" where
  "storable e \<longleftrightarrow>
     trimmed (fst e) \<and> trimmed (snd e) \<and>
     utf8_encodable (fst e) \<and> utf8_encodable (snd e) \<and>
     10 \<notin> set (fst e) \<and> 13 \<notin> set (fst e) \<and> 10 \<notin> set (snd e) \<and> 13 \<notin> set (snd e) \<and>
     61 \<notin> set (fst e) \<and> \<not> startswith (fst e) 35"

text \<open>
  The round trip: the store is saved, then a fresh store is constructed on the same path;
  the result is the mapping the fresh store holds.
\<close>

definition save_then_load :: "world \<Rightarrow> env_manager \<Rightarrow> exc + (pystr \<times> pystr) list" where
  "save_then_load w st =
     (case save_env_vars w st of
        Inl e \<Rightarrow> Inl e
      | Inr w1 \<Rightarrow>
          (case EnvManager w1 (env_file st) of
             Inl e \<Rightarrow> Inl e
           | Inr (w2, st2) \<Rightarrow> Inr (env_vars st2)))"

text \<open>
  What the specification says of one line of the backing file: a blank line, a line
  starting with \<open>#\<close> and a line without \<open>=\<close> give nothing; any other line gives the
  text before its first \<open>=\<close> and the text after it, both trimmed. Blank and
  \<open>#\<close> are judged on the line without its surrounding white space.
\<close>

definition spec_entry :: "pystr \<Rightarrow> (pystr \<times> pystr) option" where
  "spec_entry raw =
     (let line = strip raw in
      if line = [] then None
      else if hd line = 35 then None
      else if 61 \<notin> set line then None
      else (let i = length (takeWhile (\<lambda>c. c \<noteq> 61) line)
            in Some (strip (take i line), strip (drop (Suc i) line))))"

text \<open>
  What the specification says of a whole file: the entries of its lines, a later entry
  for a key overriding an earlier one.
\<close>

definition spec_load :: "pystr \<Rightarrow> (pystr \<rightharpoonup> pystr)" where
  "spec_load text = map_of (rev (List.map_filter spec_entry (py_lines (universal_newlines text))))"

text \<open>An environment without any file, nothing typed and nothing printed.\<close>

definition w0 :: world where
  "w0 = \<lparr>files = (\<lambda>p. Missing), fs_log = [], stdout = [], stdin = []\<rparr>"

text \<open>
  The store \<open>{FOO: "bar"}\<close> on the default path, and an environment in which the backing
  file holds that mapping and the user is about to type the given lines.
\<close>

definition foo_store :: env_manager where
  "foo_store =
     \<lparr>env_file = str ''.env.example'', env_vars = [(str ''FOO'', str ''bar'')],
      completer = [str ''FOO'']\<rparr>"

definition foo_world :: "pystr list \<Rightarrow> world" where
  "foo_world typed =
     \<lparr>files = (\<lambda>p. if p = str ''.env.example'' then Regular (str ''FOO=bar'' @ [10]) else Missing),
      fs_log = [], stdout = [], stdin = typed\<rparr>"

text \<open>
  Two backing files: the four lines \<open># comment\<close>, blank, \<open>FOO=bar\<close>, \<open>BADLINE\<close>; and a
  file with a duplicate key, padding, a second \<open>=\<close> and no final line end.
\<close>

definition tolerance_text :: pystr where
  "tolerance_text = str ''# comment'' @ [10] @ [10] @ str ''FOO=bar'' @ [10] @ str ''BADLINE'' @ [10]"

definition duplicate_text :: pystr where
  "duplicate_text = str ''A=1'' @ [10] @ str '' B = x=y '' @ [10] @ str ''A=2''"

section \<open>Facts about strings\<close>

lemma rstrip_Nil [simp]: "rstrip [] = []"
  by (simp add: rstrip_def)

lemma last_rstrip: "rstrip s \<noteq> [] \<Longrightarrow> \<not> isspace (last (rstrip s))"
proof -
  assume "rstrip s \<noteq> []"
  then have ne: "dropWhile isspace (rev s) \<noteq> []" by (simp add: rstrip_def)
  then have "\<not> isspace (hd (dropWhile isspace (rev s)))" by (rule hd_dropWhile)
  with ne show ?thesis by (simp add: rstrip_def last_rev)
qed

lemma hd_rstrip: "rstrip s \<noteq> [] \<Longrightarrow> hd (rstrip s) = hd s"
proof (induction s rule: rev_induct)
  case Nil then show ?case by simp
next
  case (snoc x xs)
  show ?case
  proof (cases "isspace x")
    case True
    with snoc have "rstrip (xs @ [x]) = rstrip xs" by (simp add: rstrip_def)
    with snoc show ?thesis by (cases xs) auto
  next
    case False
    then have "rstrip (xs @ [x]) = xs @ [x]" by (simp add: rstrip_def)
    then show ?thesis by simp
  qed
qed

lemma trimmed_strip: "trimmed (strip s)"
proof (cases "strip s = []")
  case True then show ?thesis by (simp add: trimmed_def)
next
  case False
  then have ne: "rstrip (lstrip s) \<noteq> []" by (simp add: strip_def)
  then have l: "lstrip s \<noteq> []" by auto
  then have "\<not> isspace (hd (lstrip s))" unfolding lstrip_def by (rule hd_dropWhile)
  with ne have "\<not> isspace (hd (strip s))" by (simp add: strip_def hd_rstrip)
  moreover from ne have "\<not> isspace (last (strip s))" by (simp add: strip_def last_rstrip)
  ultimately show ?thesis by (simp add: trimmed_def)
qed

lemma strip_trimmed: "trimmed s \<Longrightarrow> strip s = s"
proof (cases s)
  case Nil then show ?thesis by (simp add: strip_def lstrip_def)
next
  case (Cons a as)
  assume "trimmed s"
  with Cons have h: "\<not> isspace (hd s)" and l: "\<not> isspace (last s)" by (auto simp: trimmed_def)
  from h Cons have 1: "lstrip s = s" by (simp add: lstrip_def)
  from Cons have "rev s \<noteq> []" by simp
  then obtain b bs where r: "rev s = b # bs" by (cases "rev s") auto
  with Cons have "last s = b" by (metis last_rev list.sel(1) rev_rev_ident rev_is_Nil_conv list.distinct(1))
  with l r have "dropWhile isspace (rev s) = rev s" by simp
  then have "rstrip s = s" by (simp add: rstrip_def)
  with 1 show ?thesis by (simp add: strip_def)
qed

lemma strip_strip [simp]: "strip (strip s) = strip s"
  by (rule strip_trimmed) (rule trimmed_strip)

lemma strip_Nil [simp]: "strip [] = []"
  by (simp add: strip_def lstrip_def)

section \<open>Facts about the environment\<close>

lemma py_print_sel [simp]:
  "files (py_print w s) = files w"
  "fs_log (py_print w s) = fs_log w"
  "stdin (py_print w s) = stdin w"
  "stdout (py_print w s) = stdout w @ s @ [10]"
  by (simp_all add: py_print_def)

lemma py_input_Nil: "stdin w = [] \<Longrightarrow> py_input w prompt = Inl EOFError"
  by (simp add: py_input_def)

lemma py_input_Cons:
  "stdin w = l # ls \<Longrightarrow>
   py_input w prompt = Inr (l, w\<lparr>stdout := stdout w @ prompt, stdin := ls\<rparr>)"
  by (simp add: py_input_def)

lemma utf8_encodable_simps [simp]:
  "utf8_encodable []"
  "utf8_encodable (s @ t) \<longleftrightarrow> utf8_encodable s \<and> utf8_encodable t"
  "utf8_encodable (61 # s) \<longleftrightarrow> utf8_encodable s"
  "utf8_encodable (10 # s) \<longleftrightarrow> utf8_encodable s"
  by (simp_all add: utf8_encodable_def)

lemma utf8_encodable_strip: "utf8_encodable s \<Longrightarrow> utf8_encodable (strip s)"
proof -
  have d: "list_all P s \<Longrightarrow> list_all P (dropWhile Q s)" for P Q and s :: pystr
    by (induction s) auto
  assume "utf8_encodable s"
  then show ?thesis
    unfolding utf8_encodable_def strip_def rstrip_def lstrip_def
    by (intro d [THEN iffD2 [OF list_all_rev]] d) simp
qed

lemma encodable_map_simps [simp]:
  "encodable_map []"
  "encodable_map ((k, v) # d) \<longleftrightarrow> utf8_encodable k \<and> utf8_encodable v \<and> encodable_map d"
  "encodable_map (d @ d') \<longleftrightarrow> encodable_map d \<and> encodable_map d'"
  by (simp_all add: encodable_map_def)

lemma serialize_simps [simp]:
  "serialize [] = []"
  "serialize ((k, v) # d) = k @ 61 # v @ 10 # serialize d"
  by (simp_all add: serialize_def)

lemma write_entries_ok: "encodable_map d \<Longrightarrow> write_entries d f = Inr (f @ serialize d)"
  by (induction d f rule: write_entries.induct) auto

lemma write_entries_Inr: "write_entries d f = Inr t \<Longrightarrow> t = f @ serialize d \<and> encodable_map d"
  by (induction d f rule: write_entries.induct) (auto split: if_splits)

lemma open_write_Inr: "open_write e = Inr c \<Longrightarrow> c = []"
  by (cases e) auto

lemma save_env_vars_ok:
  "open_write (files w (env_file st)) = Inr [] \<Longrightarrow> encodable_map (env_vars st) \<Longrightarrow>
   save_env_vars w st =
     Inr (w\<lparr>files := (files w)(env_file st := Regular (serialize (env_vars st))),
            fs_log := fs_log w @ [OpenWrite (env_file st)]\<rparr>)"
  by (simp add: save_env_vars_def write_entries_ok)

lemma save_env_vars_Inr:
  "save_env_vars w st = Inr w' \<Longrightarrow>
   w' = w\<lparr>files := (files w)(env_file st := Regular (serialize (env_vars st))),
          fs_log := fs_log w @ [OpenWrite (env_file st)]\<rparr>"
proof -
  assume a: "save_env_vars w st = Inr w'"
  then obtain opened written where o: "open_write (files w (env_file st)) = Inr opened"
    and wr: "write_entries (env_vars st) opened = Inr written"
    and w': "w' = w\<lparr>files := (files w)(env_file st := Regular written),
                    fs_log := fs_log w @ [OpenWrite (env_file st)]\<rparr>"
    by (auto simp: save_env_vars_def split: sum.splits)
  from o have "opened = []" by (rule open_write_Inr)
  with wr have "written = serialize (env_vars st)"
    by (auto dest: write_entries_Inr)
  with w' show ?thesis by simp
qed

lemma save_env_vars_unencodable:
  "\<not> encodable_map (env_vars st) \<Longrightarrow> save_env_vars w st \<noteq> Inr w'"
  by (auto simp: save_env_vars_def split: sum.splits dest: write_entries_Inr)

section \<open>Facts about the operations\<close>

lemma fold_print_sel:
  "files (fold (\<lambda>(key, value) w'. py_print w' (g key value)) xs w) = files w"
  "fs_log (fold (\<lambda>(key, value) w'. py_print w' (g key value)) xs w) = fs_log w"
  "stdin (fold (\<lambda>(key, value) w'. py_print w' (g key value)) xs w) = stdin w"
  by (induction xs arbitrary: w; simp add: split_def)+

lemma list_vars_sel [simp]:
  "files (list_vars w st) = files w"
  "fs_log (list_vars w st) = fs_log w"
  "stdin (list_vars w st) = stdin w"
  by (simp_all add: list_vars_def Let_def fold_print_sel)

lemma in_keys_iff: "k \<in> set (map fst d) \<longleftrightarrow> map_of d k \<noteq> None"
  by (simp add: map_of_eq_None_iff)

lemma add_var_empty_key:
  assumes "stdin w = raw # rest" "strip raw = []"
  shows "\<exists>w'. add_var w st = Inr (w', st) \<and> files w' = files w \<and> fs_log w' = fs_log w \<and>
           stdin w' = rest \<and> suffix (str ''Key cannot be empty!'' @ [10]) (stdout w')"
  using assms by (simp add: add_var_def py_input_def suffix_def Let_def)

lemma add_var_duplicate:
  assumes "stdin w = raw # rest" "strip raw \<noteq> []" "strip raw \<in> set (map fst (env_vars st))"
  shows "\<exists>w'. add_var w st = Inr (w', st) \<and> files w' = files w \<and> fs_log w' = fs_log w \<and>
           stdin w' = rest \<and>
           suffix (str ''Key already exists! Use edit option to modify.'' @ [10]) (stdout w')"
  using assms by (simp add: add_var_def py_input_def suffix_def Let_def)

lemma update_new: "k \<notin> set (map fst d) \<Longrightarrow> AList.update k v d = d @ [(k, v)]"
  by (induction d) auto

lemma encodable_map_update:
  "encodable_map d \<Longrightarrow> utf8_encodable k \<Longrightarrow> utf8_encodable v \<Longrightarrow>
   encodable_map (AList.update k v d)"
  by (induction d) auto

lemma encodable_map_delete: "encodable_map d \<Longrightarrow> encodable_map (AList.delete k d)"
  by (induction d) auto

lemma encodable_map_key: "encodable_map d \<Longrightarrow> k \<in> set (map fst d) \<Longrightarrow> utf8_encodable k"
  by (induction d) force+

lemma add_var_new:
  assumes "stdin w = raw # raw_value # rest" "strip raw \<noteq> []"
    "strip raw \<notin> set (map fst (env_vars st))"
    "open_write (files w (env_file st)) = Inr []"
    "encodable_map (env_vars st)" "utf8_encodable (strip raw)" "utf8_encodable (strip raw_value)"
  shows "\<exists>w'. add_var w st =
            Inr (w', st\<lparr>env_vars := env_vars st @ [(strip raw, strip raw_value)],
                        completer := map fst (env_vars st) @ [strip raw]\<rparr>) \<and>
           files w' = (files w)(env_file st :=
              Regular (serialize (env_vars st @ [(strip raw, strip raw_value)]))) \<and>
           fs_log w' = fs_log w @ [OpenWrite (env_file st)] \<and> stdin w' = rest \<and>
           suffix (str ''Added: '' @ strip raw @ [61] @ strip raw_value @ [10]) (stdout w')"
  using assms
  by (simp add: add_var_def py_input_def save_env_vars_ok update_new setup_readline_def
      suffix_def Let_def)

lemma add_var_Inr:
  assumes "add_var w st = Inr (w', st')"
  shows "(st' = st \<and> files w' = files w \<and> fs_log w' = fs_log w) \<or>
         (env_file st' = env_file st \<and>
          files w' = (files w)(env_file st := Regular (serialize (env_vars st'))) \<and>
          fs_log w' = fs_log w @ [OpenWrite (env_file st)])"
  using assms
  by (auto simp: add_var_def py_input_def Let_def setup_readline_def
      split: list.splits sum.splits if_splits dest!: save_env_vars_Inr)

lemma edit_var_missing:
  assumes "stdin w = raw # rest" "strip raw \<notin> set (map fst (env_vars st))"
  shows "\<exists>w'. edit_var w st = Inr (w', st) \<and> files w' = files w \<and> fs_log w' = fs_log w \<and>
           stdin w' = rest \<and> suffix (str ''Key not found!'' @ [10]) (stdout w')"
proof -
  from assms(2) have "map_of (env_vars st) (strip raw) = None"
    by (simp add: map_of_eq_None_iff)
  with assms(1) show ?thesis
    by (simp add: edit_var_def py_input_def suffix_def Let_def)
qed

lemma edit_var_keep:
  assumes "stdin w = raw # raw_value # rest" "map_of (env_vars st) (strip raw) = Some cur"
    "strip raw_value = []" "open_write (files w (env_file st)) = Inr []"
    "encodable_map (env_vars st)"
  shows "\<exists>w'. edit_var w st = Inr (w', st) \<and>
           files w' = (files w)(env_file st := Regular (serialize (env_vars st))) \<and>
           fs_log w' = fs_log w @ [OpenWrite (env_file st)] \<and> stdin w' = rest \<and>
           suffix (str ''Updated: '' @ strip raw @ [61] @ cur @ [10]) (stdout w')"
  using assms
  by (simp add: edit_var_def py_input_def save_env_vars_ok update_triv suffix_def Let_def)

lemma edit_var_overwrite:
  assumes "stdin w = raw # raw_value # rest" "map_of (env_vars st) (strip raw) = Some cur"
    "strip raw_value \<noteq> []" "open_write (files w (env_file st)) = Inr []"
    "encodable_map (env_vars st)" "utf8_encodable (strip raw_value)"
  shows "\<exists>w'. edit_var w st =
             Inr (w', st\<lparr>env_vars := AList.update (strip raw) (strip raw_value) (env_vars st)\<rparr>) \<and>
           files w' = (files w)(env_file st :=
             Regular (serialize (AList.update (strip raw) (strip raw_value) (env_vars st)))) \<and>
           fs_log w' = fs_log w @ [OpenWrite (env_file st)] \<and> stdin w' = rest \<and>
           suffix (str ''Updated: '' @ strip raw @ [61] @ strip raw_value @ [10]) (stdout w')"
proof -
  from assms(2) have "strip raw \<in> set (map fst (env_vars st))"
    unfolding in_keys_iff by simp
  with assms(5) have "utf8_encodable (strip raw)" by (rule encodable_map_key)
  with assms(5,6) have "encodable_map (AList.update (strip raw) (strip raw_value) (env_vars st))"
    by (intro encodable_map_update)
  with assms(1-4) show ?thesis
    by (simp add: edit_var_def py_input_def save_env_vars_ok suffix_def Let_def)
qed

lemma edit_var_Inr:
  assumes "edit_var w st = Inr (w', st')"
  shows "(st' = st \<and> files w' = files w \<and> fs_log w' = fs_log w) \<or>
         (env_file st' = env_file st \<and>
          files w' = (files w)(env_file st := Regular (serialize (env_vars st'))) \<and>
          fs_log w' = fs_log w @ [OpenWrite (env_file st)])"
  using assms
  by (auto simp: edit_var_def py_input_def Let_def
      split: list.splits sum.splits if_splits option.splits dest!: save_env_vars_Inr)

lemma delete_var_missing:
  assumes "stdin w = raw # rest" "strip raw \<notin> set (map fst (env_vars st))"
  shows "\<exists>w'. delete_var w st = Inr (w', st) \<and> files w' = files w \<and> fs_log w' = fs_log w \<and>
           stdin w' = rest \<and> suffix (str ''Key not found!'' @ [10]) (stdout w')"
  using assms by (simp add: delete_var_def py_input_def suffix_def Let_def)

lemma delete_var_cancel:
  assumes "stdin w = raw # raw_confirm # rest" "strip raw \<in> set (map fst (env_vars st))"
    "lower (strip raw_confirm) \<noteq> str ''y''"
  shows "\<exists>w'. delete_var w st = Inr (w', st) \<and> files w' = files w \<and> fs_log w' = fs_log w \<and>
           stdin w' = rest \<and> suffix (str ''Deletion cancelled.'' @ [10]) (stdout w')"
  using assms by (simp add: delete_var_def py_input_def suffix_def Let_def)

lemma delete_var_confirmed:
  assumes "stdin w = raw # raw_confirm # rest" "strip raw \<in> set (map fst (env_vars st))"
    "lower (strip raw_confirm) = str ''y''" "open_write (files w (env_file st)) = Inr []"
    "encodable_map (env_vars st)"
  shows "\<exists>w'. delete_var w st =
             Inr (w', st\<lparr>env_vars := AList.delete (strip raw) (env_vars st),
                         completer := map fst (AList.delete (strip raw) (env_vars st))\<rparr>) \<and>
           files w' = (files w)(env_file st :=
             Regular (serialize (AList.delete (strip raw) (env_vars st)))) \<and>
           fs_log w' = fs_log w @ [OpenWrite (env_file st)] \<and> stdin w' = rest \<and>
           suffix (str ''Deleted: '' @ strip raw @ [10]) (stdout w')"
  using assms
  by (simp add: delete_var_def py_input_def save_env_vars_ok setup_readline_def suffix_def
      Let_def encodable_map_delete)

lemma delete_var_Inr:
  assumes "delete_var w st = Inr (w', st')"
  shows "(st' = st \<and> files w' = files w \<and> fs_log w' = fs_log w) \<or>
         (env_file st' = env_file st \<and>
          files w' = (files w)(env_file st := Regular (serialize (env_vars st'))) \<and>
          fs_log w' = fs_log w @ [OpenWrite (env_file st)])"
  using assms
  by (auto simp: delete_var_def py_input_def Let_def setup_readline_def
      split: list.splits sum.splits if_splits dest!: save_env_vars_Inr)

lemma lower_eq_y: "lower s = str ''y'' \<longleftrightarrow> s = str ''y'' \<or> s = str ''Y''"
proof -
  have 1: "lower_cp c = 121 \<longleftrightarrow> c = 121 \<or> c = 89" for c
    by (auto simp: lower_cp_def)
  show ?thesis
    by (cases s; cases "tl s") (auto simp: lower_def str_def 1)
qed

section \<open>Evaluation of the examples\<close>

lemma strip_examples:
  "strip (str ''FOO'') = str ''FOO''"
  "strip (str ''BAR'') = str ''BAR''"
  "strip (str ''   '') = []"
  "strip (str ''baz'') = str ''baz''"
  "strip (str ''n'') = str ''n''"
  "strip (str '' Y '') = str ''Y''"
  "strip (str ''y'') = str ''y''"
  "strip (str ''yes'') = str ''yes''"
  "strip (str ''NEW'') = str ''NEW''"
  "strip (str '' 1 '') = str ''1''"
  "strip (str ''qux'') = str ''qux''"
  by (simp_all add: str_def strip_def lstrip_def rstrip_def isspace_def)

lemma str_neq_examples:
  "str ''FOO'' \<noteq> []" "str ''BAR'' \<noteq> str ''FOO''" "str ''NEW'' \<noteq> str ''FOO''" "str ''NEW'' \<noteq> []"
  "lower (str ''n'') \<noteq> str ''y''" "lower (str ''yes'') \<noteq> str ''y''"
  "lower (str ''Y'') = str ''y''" "lower (str ''y'') = str ''y''"
  "str ''qux'' \<noteq> []" "str ''n'' \<noteq> str ''y''" "str ''n'' \<noteq> str ''Y''"
  by (simp_all add: str_def lower_def lower_cp_def)

lemma foo_sel [simp]:
  "stdin (foo_world typed) = typed"
  "fs_log (foo_world typed) = []"
  "files (foo_world typed) (str ''.env.example'') = Regular (str ''FOO=bar'' @ [10])"
  "env_vars foo_store = [(str ''FOO'', str ''bar'')]"
  "env_file foo_store = str ''.env.example''"
  by (simp_all add: foo_world_def foo_store_def)

lemma utf8_encodable_str [simp]: "utf8_encodable (str s)"
proof -
  have "of_char c < (55296 :: nat)" for c
    using nat_of_char_less_256 [of c] by linarith
  then show ?thesis
    by (simp add: utf8_encodable_def str_def list_all_iff)
qed

lemma foo_store_encodable [simp]: "encodable_map (env_vars foo_store)"
  by (simp add: foo_store_def)

section \<open>Loading a missing file\<close>

text \<open>
  C7. Loading from a path at which there is no file does not raise: the constructor
  returns a store with the empty mapping, reports that a new file will be created, and
  leaves the file system as it was, so the file is still missing after the load. Where
  the file can be created, a later \<open>save_env_vars\<close> on that path is what creates it,
  with the serialization of the mapping saved (a mapping whose text can be encoded).
\<close>

theorem load_missing_file:
  assumes "files w path \<in> {Missing, Uncreatable}"
  shows "\<exists>w' st'. EnvManager w path = Inr (w', st') \<and> env_vars st' = [] \<and>
           env_file st' = path \<and> files w' = files w \<and>
           stdout w' = stdout w @ str ''Creating new env file: '' @ path @ [10] \<and>
           (files w path = Missing \<and> env_file st2 = path \<and> files w2 = files w' \<and>
            encodable_map (env_vars st2) \<longrightarrow>
              (\<exists>w3. save_env_vars w2 st2 = Inr w3 \<and>
                    files w3 = (files w)(path := Regular (serialize (env_vars st2)))))"
  using assms
  by (auto simp: EnvManager_def load_env_vars_def setup_readline_def save_env_vars_ok)

theorem load_missing_file_witness:
  "files w0 (str ''.env'') \<in> {Missing, Uncreatable} \<and>
   (\<exists>w' st'. EnvManager w0 (str ''.env'') = Inr (w', st') \<and> env_vars st' = [] \<and>
      files w' (str ''.env'') = Missing \<and>
      (\<exists>w3. save_env_vars w0
               \<lparr>env_file = str ''.env'', env_vars = [(str ''FOO'', str ''bar'')], completer = []\<rparr>
             = Inr w3 \<and>
         files w3 (str ''.env'') = Regular (str ''FOO=bar'' @ [10])))"
proof -
  have h: "files w0 (str ''.env'') \<in> {Missing, Uncreatable}" by (simp add: w0_def)
  show ?thesis
    using h load_missing_file [OF h, of "\<lparr>env_file = str ''.env'', env_vars = [(str ''FOO'', str ''bar'')], completer = []\<rparr>" w0]
    by (auto simp: w0_def serialize_def str_def utf8_encodable_def)
qed

section \<open>Mutations rewrite the backing file\<close>

text \<open>
  C2. After every successful mutation the backing file holds the full serialization of
  the mapping now in memory, one \<open>key=value\<close> line per entry in iteration order
  (\<open>serialize\<close>), whatever the file held before. An add of a new, non-empty key, an edit
  of a present key and a delete of a present key confirmed with \<open>y\<close> or \<open>Y\<close> each
  return, change the mapping as typed, open the file for writing exactly once and leave
  it with the serialization of the new mapping (the file is assumed to open for writing
  and the text to be encodable). Moreover an operation that returns and has changed
  anything at all (the store, the file system or the record of \<open>open\<close> calls) has
  rewritten the file in this way: it is never patched.
\<close>

theorem mutation_rewrites_file:
  "(stdin w = raw_key # raw_value # rest \<and> strip raw_key \<noteq> [] \<and>
    strip raw_key \<notin> set (map fst (env_vars st)) \<and>
    open_write (files w (env_file st)) = Inr [] \<and> encodable_map (env_vars st) \<and>
    utf8_encodable (strip raw_key) \<and> utf8_encodable (strip raw_value) \<longrightarrow>
      (\<exists>w' st'. add_var w st = Inr (w', st') \<and>
         env_vars st' = env_vars st @ [(strip raw_key, strip raw_value)] \<and>
         env_file st' = env_file st \<and>
         files w' = (files w)(env_file st := Regular (serialize (env_vars st'))) \<and>
         fs_log w' = fs_log w @ [OpenWrite (env_file st)])) \<and>
   (stdin w = raw_key # raw_value # rest \<and>
    map_of (env_vars st) (strip raw_key) = Some current \<and>
    open_write (files w (env_file st)) = Inr [] \<and> encodable_map (env_vars st) \<and>
    utf8_encodable (strip raw_value) \<longrightarrow>
      (\<exists>w' st'. edit_var w st = Inr (w', st') \<and>
         env_vars st' =
           AList.update (strip raw_key)
             (if strip raw_value = [] then current else strip raw_value) (env_vars st) \<and>
         env_file st' = env_file st \<and>
         files w' = (files w)(env_file st := Regular (serialize (env_vars st'))) \<and>
         fs_log w' = fs_log w @ [OpenWrite (env_file st)])) \<and>
   (stdin w = raw_key # raw_confirm # rest \<and>
    strip raw_key \<in> set (map fst (env_vars st)) \<and>
    (strip raw_confirm = str ''y'' \<or> strip raw_confirm = str ''Y'') \<and>
    open_write (files w (env_file st)) = Inr [] \<and> encodable_map (env_vars st) \<longrightarrow>
      (\<exists>w' st'. delete_var w st = Inr (w', st') \<and>
         env_vars st' = AList.delete (strip raw_key) (env_vars st) \<and>
         env_file st' = env_file st \<and>
         files w' = (files w)(env_file st := Regular (serialize (env_vars st'))) \<and>
         fs_log w' = fs_log w @ [OpenWrite (env_file st)])) \<and>
   ((add_var w st = Inr (w1, st1) \<or> edit_var w st = Inr (w1, st1) \<or>
     delete_var w st = Inr (w1, st1)) \<and>
    (st1 \<noteq> st \<or> files w1 \<noteq> files w \<or> fs_log w1 \<noteq> fs_log w) \<longrightarrow>
      env_file st1 = env_file st \<and>
      files w1 = (files w)(env_file st := Regular (serialize (env_vars st1))) \<and>
      fs_log w1 = fs_log w @ [OpenWrite (env_file st)])"
proof (intro conjI impI)
  assume a: "stdin w = raw_key # raw_value # rest \<and> strip raw_key \<noteq> [] \<and>
    strip raw_key \<notin> set (map fst (env_vars st)) \<and>
    open_write (files w (env_file st)) = Inr [] \<and> encodable_map (env_vars st) \<and>
    utf8_encodable (strip raw_key) \<and> utf8_encodable (strip raw_value)"
  then obtain w' where
    "add_var w st =
       Inr (w', st\<lparr>env_vars := env_vars st @ [(strip raw_key, strip raw_value)],
                   completer := map fst (env_vars st) @ [strip raw_key]\<rparr>)"
    and "files w' = (files w)(env_file st :=
           Regular (serialize (env_vars st @ [(strip raw_key, strip raw_value)])))"
    and "fs_log w' = fs_log w @ [OpenWrite (env_file st)]"
    using add_var_new [of w raw_key raw_value rest st] by blast
  then show "\<exists>w' st'. add_var w st = Inr (w', st') \<and>
         env_vars st' = env_vars st @ [(strip raw_key, strip raw_value)] \<and>
         env_file st' = env_file st \<and>
         files w' = (files w)(env_file st := Regular (serialize (env_vars st'))) \<and>
         fs_log w' = fs_log w @ [OpenWrite (env_file st)]"
    by simp
next
  assume a: "stdin w = raw_key # raw_value # rest \<and>
    map_of (env_vars st) (strip raw_key) = Some current \<and>
    open_write (files w (env_file st)) = Inr [] \<and> encodable_map (env_vars st) \<and>
    utf8_encodable (strip raw_value)"
  show "\<exists>w' st'. edit_var w st = Inr (w', st') \<and>
         env_vars st' =
           AList.update (strip raw_key)
             (if strip raw_value = [] then current else strip raw_value) (env_vars st) \<and>
         env_file st' = env_file st \<and>
         files w' = (files w)(env_file st := Regular (serialize (env_vars st'))) \<and>
         fs_log w' = fs_log w @ [OpenWrite (env_file st)]"
  proof (cases "strip raw_value = []")
    case True
    with a obtain w' where "edit_var w st = Inr (w', st)"
      and "files w' = (files w)(env_file st := Regular (serialize (env_vars st)))"
      and "fs_log w' = fs_log w @ [OpenWrite (env_file st)]"
      using edit_var_keep [of w raw_key raw_value rest st current] by blast
    moreover from a have "AList.update (strip raw_key) current (env_vars st) = env_vars st"
      by (simp add: update_triv)
    ultimately show ?thesis using True by simp
  next
    case False
    with a obtain w' where
      "edit_var w st =
         Inr (w', st\<lparr>env_vars := AList.update (strip raw_key) (strip raw_value) (env_vars st)\<rparr>)"
      and "files w' = (files w)(env_file st :=
             Regular (serialize (AList.update (strip raw_key) (strip raw_value) (env_vars st))))"
      and "fs_log w' = fs_log w @ [OpenWrite (env_file st)]"
      using edit_var_overwrite [of w raw_key raw_value rest st current] by blast
    then show ?thesis using False by simp
  qed
next
  assume a: "stdin w = raw_key # raw_confirm # rest \<and>
    strip raw_key \<in> set (map fst (env_vars st)) \<and>
    (strip raw_confirm = str ''y'' \<or> strip raw_confirm = str ''Y'') \<and>
    open_write (files w (env_file st)) = Inr [] \<and> encodable_map (env_vars st)"
  then have "lower (strip raw_confirm) = str ''y''"
    by (simp add: lower_eq_y)
  with a obtain w' where
    "delete_var w st =
       Inr (w', st\<lparr>env_vars := AList.delete (strip raw_key) (env_vars st),
                   completer := map fst (AList.delete (strip raw_key) (env_vars st))\<rparr>)"
    and "files w' = (files w)(env_file st :=
           Regular (serialize (AList.delete (strip raw_key) (env_vars st))))"
    and "fs_log w' = fs_log w @ [OpenWrite (env_file st)]"
    using delete_var_confirmed [of w raw_key raw_confirm rest st] by blast
  then show "\<exists>w' st'. delete_var w st = Inr (w', st') \<and>
         env_vars st' = AList.delete (strip raw_key) (env_vars st) \<and>
         env_file st' = env_file st \<and>
         files w' = (files w)(env_file st := Regular (serialize (env_vars st'))) \<and>
         fs_log w' = fs_log w @ [OpenWrite (env_file st)]"
    by simp
next
  assume a: "(add_var w st = Inr (w1, st1) \<or> edit_var w st = Inr (w1, st1) \<or>
     delete_var w st = Inr (w1, st1)) \<and>
    (st1 \<noteq> st \<or> files w1 \<noteq> files w \<or> fs_log w1 \<noteq> fs_log w)"
  then have r: "env_file st1 = env_file st \<and>
      files w1 = (files w)(env_file st := Regular (serialize (env_vars st1))) \<and>
      fs_log w1 = fs_log w @ [OpenWrite (env_file st)]"
    using add_var_Inr [of w st w1 st1] edit_var_Inr [of w st w1 st1]
      delete_var_Inr [of w st w1 st1]
    by blast
  from r show "env_file st1 = env_file st" by simp
  from r show "files w1 = (files w)(env_file st := Regular (serialize (env_vars st1)))" by simp
  from r show "fs_log w1 = fs_log w @ [OpenWrite (env_file st)]" by simp
qed

theorem mutation_rewrites_file_witness:
  "(\<exists>w' st'. add_var (foo_world [str ''NEW'', str '' 1 '']) foo_store = Inr (w', st') \<and>
      env_vars st' = [(str ''FOO'', str ''bar''), (str ''NEW'', str ''1'')] \<and>
      files w' (str ''.env.example'') = Regular (str ''FOO=bar'' @ [10] @ str ''NEW=1'' @ [10]) \<and>
      fs_log w' = [OpenWrite (str ''.env.example'')]) \<and>
   (\<exists>w' st'. edit_var (foo_world [str ''FOO'', str ''qux'']) foo_store = Inr (w', st') \<and>
      env_vars st' = [(str ''FOO'', str ''qux'')] \<and>
      files w' (str ''.env.example'') = Regular (str ''FOO=qux'' @ [10]) \<and>
      fs_log w' = [OpenWrite (str ''.env.example'')]) \<and>
   (\<exists>w' st'. edit_var (foo_world [str ''FOO'', []]) foo_store = Inr (w', st') \<and>
      env_vars st' = [(str ''FOO'', str ''bar'')] \<and>
      files w' (str ''.env.example'') = Regular (str ''FOO=bar'' @ [10]) \<and>
      fs_log w' = [OpenWrite (str ''.env.example'')]) \<and>
   (\<exists>w' st'. delete_var (foo_world [str ''FOO'', str ''y'']) foo_store = Inr (w', st') \<and>
      env_vars st' = [] \<and>
      files w' (str ''.env.example'') = Regular [] \<and>
      fs_log w' = [OpenWrite (str ''.env.example'')])"
proof (intro conjI)
  have o: "open_write (files (foo_world typed) (env_file foo_store)) = Inr []" for typed
    by simp
  have m: "map_of (env_vars foo_store) (str ''FOO'') = Some (str ''bar'')"
    by simp
  have f1: "str ''FOO=bar'' @ [10] @ str ''NEW=1'' @ [10] =
      serialize [(str ''FOO'', str ''bar''), (str ''NEW'', str ''1'')]"
    and f2: "str ''FOO=qux'' @ [10] = serialize [(str ''FOO'', str ''qux'')]"
    and f3: "str ''FOO=bar'' @ [10] = serialize [(str ''FOO'', str ''bar'')]"
    by (simp_all add: str_def)
  from mutation_rewrites_file [where w = "foo_world [str ''NEW'', str '' 1 '']"
      and raw_key = "str ''NEW''" and raw_value = "str '' 1 ''" and rest = "[]"
      and st = foo_store, THEN conjunct1]
  show "\<exists>w' st'. add_var (foo_world [str ''NEW'', str '' 1 '']) foo_store = Inr (w', st') \<and>
      env_vars st' = [(str ''FOO'', str ''bar''), (str ''NEW'', str ''1'')] \<and>
      files w' (str ''.env.example'') = Regular (str ''FOO=bar'' @ [10] @ str ''NEW=1'' @ [10]) \<and>
      fs_log w' = [OpenWrite (str ''.env.example'')]"
    unfolding f1 by (auto simp: strip_examples str_neq_examples)
  from mutation_rewrites_file [where w = "foo_world [str ''FOO'', str ''qux'']"
      and raw_key = "str ''FOO''" and raw_value = "str ''qux''" and rest = "[]"
      and st = foo_store and current = "str ''bar''", THEN conjunct2, THEN conjunct1]
  show "\<exists>w' st'. edit_var (foo_world [str ''FOO'', str ''qux'']) foo_store = Inr (w', st') \<and>
      env_vars st' = [(str ''FOO'', str ''qux'')] \<and>
      files w' (str ''.env.example'') = Regular (str ''FOO=qux'' @ [10]) \<and>
      fs_log w' = [OpenWrite (str ''.env.example'')]"
    unfolding f2 by (auto simp: strip_examples str_neq_examples)
  from mutation_rewrites_file [where w = "foo_world [str ''FOO'', []]"
      and raw_key = "str ''FOO''" and raw_value = "[]" and rest = "[]"
      and st = foo_store and current = "str ''bar''", THEN conjunct2, THEN conjunct1]
  show "\<exists>w' st'. edit_var (foo_world [str ''FOO'', []]) foo_store = Inr (w', st') \<and>
      env_vars st' = [(str ''FOO'', str ''bar'')] \<and>
      files w' (str ''.env.example'') = Regular (str ''FOO=bar'' @ [10]) \<and>
      fs_log w' = [OpenWrite (str ''.env.example'')]"
    unfolding f3 by (auto simp: strip_examples str_neq_examples)
  from mutation_rewrites_file [where w = "foo_world [str ''FOO'', str ''y'']"
      and raw_key = "str ''FOO''" and raw_confirm = "str ''y''" and rest = "[]"
      and st = foo_store, THEN conjunct2, THEN conjunct2, THEN conjunct1]
  show "\<exists>w' st'. delete_var (foo_world [str ''FOO'', str ''y'']) foo_store = Inr (w', st') \<and>
      env_vars st' = [] \<and>
      files w' (str ''.env.example'') = Regular [] \<and>
      fs_log w' = [OpenWrite (str ''.env.example'')]"
    by (auto simp: strip_examples str_neq_examples)
qed

section \<open>Input errors\<close>

text \<open>
  C4. Every recoverable user-input error leaves the store exactly as it was and does not
  call \<open>save_env_vars\<close>: the file system and the record of \<open>open\<close> calls are unchanged,
  and the last thing printed is the error message. The five cases are an empty key on
  add, a key already present on add, a key not present on edit, a key not present on
  delete, and a delete whose confirmation is not \<open>y\<close>. The key is the typed line
  without its surrounding white space, as \<open>key\<close> is in the source.
\<close>

theorem input_errors_leave_state:
  "(stdin w = raw_key # rest \<and> strip raw_key = [] \<longrightarrow>
      (\<exists>w'. add_var w st = Inr (w', st) \<and> files w' = files w \<and> fs_log w' = fs_log w \<and>
            suffix (str ''Key cannot be empty!'' @ [10]) (stdout w'))) \<and>
   (stdin w = raw_key # rest \<and> strip raw_key \<noteq> [] \<and>
    strip raw_key \<in> set (map fst (env_vars st)) \<longrightarrow>
      (\<exists>w'. add_var w st = Inr (w', st) \<and> files w' = files w \<and> fs_log w' = fs_log w \<and>
            suffix (str ''Key already exists! Use edit option to modify.'' @ [10]) (stdout w'))) \<and>
   (stdin w = raw_key # rest \<and> strip raw_key \<notin> set (map fst (env_vars st)) \<longrightarrow>
      (\<exists>w'. edit_var w st = Inr (w', st) \<and> files w' = files w \<and> fs_log w' = fs_log w \<and>
            suffix (str ''Key not found!'' @ [10]) (stdout w'))) \<and>
   (stdin w = raw_key # rest \<and> strip raw_key \<notin> set (map fst (env_vars st)) \<longrightarrow>
      (\<exists>w'. delete_var w st = Inr (w', st) \<and> files w' = files w \<and> fs_log w' = fs_log w \<and>
            suffix (str ''Key not found!'' @ [10]) (stdout w'))) \<and>
   (stdin w = raw_key # raw_confirm # rest2 \<and> strip raw_key \<in> set (map fst (env_vars st)) \<and>
    lower (strip raw_confirm) \<noteq> str ''y'' \<longrightarrow>
      (\<exists>w'. delete_var w st = Inr (w', st) \<and> files w' = files w \<and> fs_log w' = fs_log w \<and>
            suffix (str ''Deletion cancelled.'' @ [10]) (stdout w')))"
proof (intro conjI impI)
  assume "stdin w = raw_key # rest \<and> strip raw_key = []"
  then show "\<exists>w'. add_var w st = Inr (w', st) \<and> files w' = files w \<and> fs_log w' = fs_log w \<and>
            suffix (str ''Key cannot be empty!'' @ [10]) (stdout w')"
    using add_var_empty_key [of w raw_key rest st] by blast
next
  assume "stdin w = raw_key # rest \<and> strip raw_key \<noteq> [] \<and>
    strip raw_key \<in> set (map fst (env_vars st))"
  then show "\<exists>w'. add_var w st = Inr (w', st) \<and> files w' = files w \<and> fs_log w' = fs_log w \<and>
            suffix (str ''Key already exists! Use edit option to modify.'' @ [10]) (stdout w')"
    using add_var_duplicate [of w raw_key rest st] by blast
next
  assume "stdin w = raw_key # rest \<and> strip raw_key \<notin> set (map fst (env_vars st))"
  then show "\<exists>w'. edit_var w st = Inr (w', st) \<and> files w' = files w \<and> fs_log w' = fs_log w \<and>
            suffix (str ''Key not found!'' @ [10]) (stdout w')"
    using edit_var_missing [of w raw_key rest st] by blast
next
  assume "stdin w = raw_key # rest \<and> strip raw_key \<notin> set (map fst (env_vars st))"
  then show "\<exists>w'. delete_var w st = Inr (w', st) \<and> files w' = files w \<and> fs_log w' = fs_log w \<and>
            suffix (str ''Key not found!'' @ [10]) (stdout w')"
    using delete_var_missing [of w raw_key rest st] by blast
next
  assume "stdin w = raw_key # raw_confirm # rest2 \<and>
    strip raw_key \<in> set (map fst (env_vars st)) \<and> lower (strip raw_confirm) \<noteq> str ''y''"
  then show "\<exists>w'. delete_var w st = Inr (w', st) \<and> files w' = files w \<and> fs_log w' = fs_log w \<and>
            suffix (str ''Deletion cancelled.'' @ [10]) (stdout w')"
    using delete_var_cancel [of w raw_key raw_confirm rest2 st] by blast
qed

theorem input_errors_leave_state_witness:
  "(\<exists>w'. add_var (foo_world [str ''   '']) foo_store = Inr (w', foo_store) \<and>
         files w' = files (foo_world [str ''   '']) \<and> fs_log w' = []) \<and>
   (\<exists>w'. add_var (foo_world [str ''FOO'', str ''baz'']) foo_store = Inr (w', foo_store) \<and>
         files w' = files (foo_world [str ''FOO'', str ''baz'']) \<and> fs_log w' = []) \<and>
   (\<exists>w'. edit_var (foo_world [str ''BAR'']) foo_store = Inr (w', foo_store) \<and>
         files w' = files (foo_world [str ''BAR'']) \<and> fs_log w' = []) \<and>
   (\<exists>w'. delete_var (foo_world [str ''BAR'']) foo_store = Inr (w', foo_store) \<and>
         files w' = files (foo_world [str ''BAR'']) \<and> fs_log w' = []) \<and>
   (\<exists>w'. delete_var (foo_world [str ''FOO'', str ''n'']) foo_store = Inr (w', foo_store) \<and>
         files w' = files (foo_world [str ''FOO'', str ''n'']) \<and> fs_log w' = [])"
proof (intro conjI)
  show "\<exists>w'. add_var (foo_world [str ''   '']) foo_store = Inr (w', foo_store) \<and>
         files w' = files (foo_world [str ''   '']) \<and> fs_log w' = []"
    using input_errors_leave_state [of "foo_world [str ''   '']" "str ''   ''" "[]" foo_store]
    by (simp add: strip_examples) blast
  show "\<exists>w'. add_var (foo_world [str ''FOO'', str ''baz'']) foo_store = Inr (w', foo_store) \<and>
         files w' = files (foo_world [str ''FOO'', str ''baz'']) \<and> fs_log w' = []"
    using input_errors_leave_state [of "foo_world [str ''FOO'', str ''baz'']" "str ''FOO''" "[str ''baz'']" foo_store]
    by (simp add: strip_examples str_neq_examples) blast
  show "\<exists>w'. edit_var (foo_world [str ''BAR'']) foo_store = Inr (w', foo_store) \<and>
         files w' = files (foo_world [str ''BAR'']) \<and> fs_log w' = []"
    using input_errors_leave_state [of "foo_world [str ''BAR'']" "str ''BAR''" "[]" foo_store]
    by (simp add: strip_examples str_neq_examples) blast
  show "\<exists>w'. delete_var (foo_world [str ''BAR'']) foo_store = Inr (w', foo_store) \<and>
         files w' = files (foo_world [str ''BAR'']) \<and> fs_log w' = []"
    using input_errors_leave_state [of "foo_world [str ''BAR'']" "str ''BAR''" "[]" foo_store]
    by (simp add: strip_examples str_neq_examples) blast
  show "\<exists>w'. delete_var (foo_world [str ''FOO'', str ''n'']) foo_store = Inr (w', foo_store) \<and>
         files w' = files (foo_world [str ''FOO'', str ''n'']) \<and> fs_log w' = []"
    using input_errors_leave_state [of "foo_world [str ''FOO'', str ''n'']" "str ''FOO''" "[]" foo_store "str ''n''" "[]"]
    by (simp add: strip_examples str_neq_examples) blast
qed

section \<open>Editing\<close>

lemma update_other: "k' \<noteq> k \<Longrightarrow> map_of (AList.update k v d) k' = map_of d k'"
  by (simp add: update_conv')

text \<open>
  C5. For a key present in the mapping, \<open>edit_var\<close> with an empty new value keeps the
  existing value: the store is unchanged, nothing is deleted. With a non-empty new value
  it overwrites the entry with that value, leaves every other entry and the order of the
  keys alone, and persists. The new value is the typed line without its surrounding
  white space, as \<open>value\<close> is in the source. In both cases the file is rewritten with the
  serialization of the resulting mapping. The backing file is assumed to open for writing
  and the text to be encodable.
\<close>

theorem edit_keep_or_overwrite:
  assumes "stdin w = raw_key # raw_value # rest"
    and "map_of (env_vars st) (strip raw_key) = Some current"
    and "open_write (files w (env_file st)) = Inr []"
    and "encodable_map (env_vars st)"
    and "utf8_encodable (strip raw_value)"
  shows "\<exists>w' st'. edit_var w st = Inr (w', st') \<and>
           (strip raw_value = [] \<longrightarrow>
              st' = st \<and> map_of (env_vars st') (strip raw_key) = Some current) \<and>
           (strip raw_value \<noteq> [] \<longrightarrow>
              map_of (env_vars st') (strip raw_key) = Some (strip raw_value) \<and>
              (\<forall>k. k \<noteq> strip raw_key \<longrightarrow> map_of (env_vars st') k = map_of (env_vars st) k) \<and>
              map fst (env_vars st') = map fst (env_vars st)) \<and>
           files w' = (files w)(env_file st := Regular (serialize (env_vars st'))) \<and>
           fs_log w' = fs_log w @ [OpenWrite (env_file st)]"
proof (cases "strip raw_value = []")
  case True
  from edit_var_keep [OF assms(1,2) True assms(3,4)] True assms(2) show ?thesis by auto
next
  case False
  have k: "strip raw_key \<in> fst ` set (env_vars st)"
    using assms(2) by (metis map_of_eq_None_iff option.distinct(1))
  from edit_var_overwrite [OF assms(1,2) False assms(3,4,5)] obtain w' where
    e: "edit_var w st =
          Inr (w', st\<lparr>env_vars := AList.update (strip raw_key) (strip raw_value) (env_vars st)\<rparr>)"
    and f: "files w' = (files w)(env_file st :=
             Regular (serialize (AList.update (strip raw_key) (strip raw_value) (env_vars st))))"
    and l: "fs_log w' = fs_log w @ [OpenWrite (env_file st)]"
    by blast
  have "map fst (AList.update (strip raw_key) (strip raw_value) (env_vars st)) = map fst (env_vars st)"
    using k by (simp add: update_keys)
  with e f l False show ?thesis
    by (simp add: update_conv')
qed

theorem edit_keep_or_overwrite_witness:
  "(\<exists>w' st'. edit_var (foo_world [str ''FOO'', []]) foo_store = Inr (w', st') \<and>
      st' = foo_store \<and> map_of (env_vars st') (str ''FOO'') = Some (str ''bar'')) \<and>
   (\<exists>w' st'. edit_var (foo_world [str ''FOO'', str ''qux'']) foo_store = Inr (w', st') \<and>
      env_vars st' = [(str ''FOO'', str ''qux'')] \<and>
      files w' (str ''.env.example'') = Regular (str ''FOO=qux'' @ [10]))"
proof
  have m: "map_of (env_vars foo_store) (strip (str ''FOO'')) = Some (str ''bar'')"
    by (simp add: strip_examples)
  have o: "open_write (files (foo_world typed) (env_file foo_store)) = Inr []" for typed
    by simp
  from edit_keep_or_overwrite [OF _ m o, of "[str ''FOO'', []]" "[]" "[]"]
    foo_store_encodable
  show "\<exists>w' st'. edit_var (foo_world [str ''FOO'', []]) foo_store = Inr (w', st') \<and>
      st' = foo_store \<and> map_of (env_vars st') (str ''FOO'') = Some (str ''bar'')"
    by (auto simp: strip_examples)
  from edit_keep_or_overwrite [OF _ m o, of "[str ''FOO'', str ''qux'']" "str ''qux''" "[]"]
    foo_store_encodable
  obtain w' st' where e: "edit_var (foo_world [str ''FOO'', str ''qux'']) foo_store = Inr (w', st')"
    and v: "map_of (env_vars st') (str ''FOO'') = Some (str ''qux'')"
    and ks: "map fst (env_vars st') = [str ''FOO'']"
    and f: "files w' = (files (foo_world [str ''FOO'', str ''qux'']))(str ''.env.example'' := Regular (serialize (env_vars st')))"
    by (auto simp: strip_examples str_neq_examples)
  from ks obtain x where x: "env_vars st' = [(str ''FOO'', x)]"
    by (cases "env_vars st'") auto
  with v have "env_vars st' = [(str ''FOO'', str ''qux'')]" by simp
  with e f show "\<exists>w' st'. edit_var (foo_world [str ''FOO'', str ''qux'']) foo_store = Inr (w', st') \<and>
      env_vars st' = [(str ''FOO'', str ''qux'')] \<and>
      files w' (str ''.env.example'') = Regular (str ''FOO=qux'' @ [10])"
    by (simp add: serialize_def str_def)
qed

section \<open>Deleting\<close>

lemma delete_filter: "AList.delete k d = filter (\<lambda>(key, value). key \<noteq> k) d"
  by (induction d) auto

text \<open>
  C6. For a key present in the mapping, \<open>delete_var\<close> removes the key and persists
  exactly when the confirmation is \<open>y\<close> or \<open>Y\<close>: then the entry of that key is gone, the
  other entries stay in order, and the file is rewritten with the serialization of what
  is left. On any other confirmation the store, the file system and the record of
  \<open>open\<close> calls are untouched and \<open>Deletion cancelled.\<close> is printed. Key and confirmation
  are the typed lines without their surrounding white space, as in the source. The
  backing file is assumed to open for writing and the text of the mapping to be encodable.
\<close>

theorem delete_requires_confirmation:
  assumes "stdin w = raw_key # raw_confirm # rest"
    and "strip raw_key \<in> set (map fst (env_vars st))"
    and "open_write (files w (env_file st)) = Inr []"
    and "encodable_map (env_vars st)"
  shows "\<exists>w' st'. delete_var w st = Inr (w', st') \<and>
           (if strip raw_confirm = str ''y'' \<or> strip raw_confirm = str ''Y''
            then env_vars st' = filter (\<lambda>(key, value). key \<noteq> strip raw_key) (env_vars st) \<and>
                 strip raw_key \<notin> set (map fst (env_vars st')) \<and>
                 files w' = (files w)(env_file st := Regular (serialize (env_vars st'))) \<and>
                 fs_log w' = fs_log w @ [OpenWrite (env_file st)] \<and>
                 suffix (str ''Deleted: '' @ strip raw_key @ [10]) (stdout w')
            else st' = st \<and> files w' = files w \<and> fs_log w' = fs_log w \<and>
                 suffix (str ''Deletion cancelled.'' @ [10]) (stdout w'))"
proof (cases "lower (strip raw_confirm) = str ''y''")
  case True
  then have c: "strip raw_confirm = str ''y'' \<or> strip raw_confirm = str ''Y''"
    by (simp add: lower_eq_y)
  from delete_var_confirmed [OF assms(1,2) True assms(3,4)] c show ?thesis
    by (auto simp: delete_filter)
next
  case False
  then have c: "\<not> (strip raw_confirm = str ''y'' \<or> strip raw_confirm = str ''Y'')"
    by (simp add: lower_eq_y)
  from delete_var_cancel [OF assms(1,2) False] c show ?thesis
    by auto
qed

theorem delete_requires_confirmation_witness:
  "(\<exists>w' st'. delete_var (foo_world [str ''FOO'', str ''n'']) foo_store = Inr (w', st') \<and>
      st' = foo_store \<and> env_vars st' = [(str ''FOO'', str ''bar'')] \<and>
      files w' = files (foo_world [str ''FOO'', str ''n'']) \<and> fs_log w' = []) \<and>
   (\<exists>w' st'. delete_var (foo_world [str ''FOO'', str ''y'']) foo_store = Inr (w', st') \<and>
      env_vars st' = [] \<and> files w' (str ''.env.example'') = Regular []) \<and>
   (\<exists>w' st'. delete_var (foo_world [str ''FOO'', str '' Y '']) foo_store = Inr (w', st') \<and>
      env_vars st' = [] \<and> files w' (str ''.env.example'') = Regular [])"
proof (intro conjI)
  have k: "strip (str ''FOO'') \<in> set (map fst (env_vars foo_store))"
    by (simp add: strip_examples)
  have o: "open_write (files (foo_world typed) (env_file foo_store)) = Inr []" for typed
    by simp
  from delete_requires_confirmation [OF _ k o foo_store_encodable,
      of "[str ''FOO'', str ''n'']" "str ''n''" "[]"]
  show "\<exists>w' st'. delete_var (foo_world [str ''FOO'', str ''n'']) foo_store = Inr (w', st') \<and>
      st' = foo_store \<and> env_vars st' = [(str ''FOO'', str ''bar'')] \<and>
      files w' = files (foo_world [str ''FOO'', str ''n'']) \<and> fs_log w' = []"
    by (auto simp: strip_examples str_neq_examples)
  from delete_requires_confirmation [OF _ k o foo_store_encodable,
      of "[str ''FOO'', str ''y'']" "str ''y''" "[]"]
  show "\<exists>w' st'. delete_var (foo_world [str ''FOO'', str ''y'']) foo_store = Inr (w', st') \<and>
      env_vars st' = [] \<and> files w' (str ''.env.example'') = Regular []"
    by (auto simp: strip_examples serialize_def)
  from delete_requires_confirmation [OF _ k o foo_store_encodable,
      of "[str ''FOO'', str '' Y '']" "str '' Y ''" "[]"]
  show "\<exists>w' st'. delete_var (foo_world [str ''FOO'', str '' Y '']) foo_store = Inr (w', st') \<and>
      env_vars st' = [] \<and> files w' (str ''.env.example'') = Regular []"
    by (auto simp: strip_examples serialize_def)
qed

section \<open>Empty values\<close>

lemma edit_var_never_empties:
  assumes "edit_var w st = Inr (w', st')" "map_of (env_vars st') k = Some []"
  shows "map_of (env_vars st) k = Some []"
  using assms
  by (auto simp: edit_var_def py_input_def Let_def update_conv'
      split: list.splits sum.splits if_splits option.splits)

lemma edit_var_blank_keeps:
  assumes "edit_var w st = Inr (w', st')" "stdin w = raw_key # raw_value # rest"
    "strip raw_value = []"
  shows "st' = st"
  using assms
  by (auto simp: edit_var_def py_input_def Let_def update_triv
      split: list.splits sum.splits if_splits option.splits)

text \<open>
  C10. \<open>add_var\<close> accepts an empty value: for a new, non-empty key and a value that is
  empty once stripped, it stores the key with the value \<open>""\<close> (only the key is checked
  for emptiness; the file is assumed to open for writing and the text to be encodable).
  \<open>edit_var\<close> can never set a value to the empty string: when it returns,
  a key whose value is empty had the empty value before; and when the typed new value
  strips to empty (white space only included), the store is left as it was.
\<close>

theorem add_accepts_empty_edit_does_not:
  "(stdin w = raw_key # raw_value # rest \<and> strip raw_key \<noteq> [] \<and>
    strip raw_key \<notin> set (map fst (env_vars st)) \<and> strip raw_value = [] \<and>
    open_write (files w (env_file st)) = Inr [] \<and> encodable_map (env_vars st) \<and>
    utf8_encodable (strip raw_key) \<longrightarrow>
      (\<exists>w' st'. add_var w st = Inr (w', st') \<and>
         env_vars st' = env_vars st @ [(strip raw_key, [])] \<and>
         map_of (env_vars st') (strip raw_key) = Some [])) \<and>
   (edit_var w st = Inr (w', st') \<and> map_of (env_vars st') k = Some [] \<longrightarrow>
      map_of (env_vars st) k = Some []) \<and>
   (edit_var w st = Inr (w', st') \<and> stdin w = raw_key # raw_value # rest \<and>
    strip raw_value = [] \<longrightarrow> st' = st)"
proof (intro conjI impI)
  assume a: "stdin w = raw_key # raw_value # rest \<and> strip raw_key \<noteq> [] \<and>
    strip raw_key \<notin> set (map fst (env_vars st)) \<and> strip raw_value = [] \<and>
    open_write (files w (env_file st)) = Inr [] \<and> encodable_map (env_vars st) \<and>
    utf8_encodable (strip raw_key)"
  then have n: "map_of (env_vars st) (strip raw_key) = None"
    by (simp add: map_of_eq_None_iff)
  from a add_var_new [of w raw_key raw_value rest st]
  show "\<exists>w' st'. add_var w st = Inr (w', st') \<and>
         env_vars st' = env_vars st @ [(strip raw_key, [])] \<and>
         map_of (env_vars st') (strip raw_key) = Some []"
    using n by (auto simp: map_add_def)
next
  assume "edit_var w st = Inr (w', st') \<and> map_of (env_vars st') k = Some []"
  then show "map_of (env_vars st) k = Some []"
    using edit_var_never_empties by blast
next
  assume "edit_var w st = Inr (w', st') \<and> stdin w = raw_key # raw_value # rest \<and>
    strip raw_value = []"
  then show "st' = st"
    using edit_var_blank_keeps by blast
qed

theorem add_accepts_empty_edit_does_not_witness:
  "(\<exists>w' st'. add_var (foo_world [str ''NEW'', []]) foo_store = Inr (w', st') \<and>
      env_vars st' = [(str ''FOO'', str ''bar''), (str ''NEW'', [])]) \<and>
   (\<exists>w' st'. edit_var (foo_world [str ''FOO'', str ''   '']) foo_store = Inr (w', st') \<and>
      st' = foo_store \<and> map_of (env_vars st') (str ''FOO'') = Some (str ''bar'')) \<and>
   (\<exists>w' st'. edit_var (foo_world [str ''NEW'', []])
               (foo_store\<lparr>env_vars := [(str ''FOO'', str ''bar''), (str ''NEW'', [])]\<rparr>)
             = Inr (w', st') \<and>
      map_of (env_vars st') (str ''NEW'') = Some [] \<and>
      map_of [(str ''FOO'', str ''bar''), (str ''NEW'', [])] (str ''NEW'') = Some [])"
proof (intro conjI)
  from add_accepts_empty_edit_does_not [where w = "foo_world [str ''NEW'', []]"
      and raw_key = "str ''NEW''" and raw_value = "[]" and rest = "[]" and st = foo_store,
      THEN conjunct1]
  show "\<exists>w' st'. add_var (foo_world [str ''NEW'', []]) foo_store = Inr (w', st') \<and>
      env_vars st' = [(str ''FOO'', str ''bar''), (str ''NEW'', [])]"
    by (auto simp: strip_examples str_neq_examples)
  have m: "map_of (env_vars foo_store) (strip (str ''FOO'')) = Some (str ''bar'')"
    by (simp add: strip_examples)
  have o: "open_write (files (foo_world typed) (env_file foo_store)) = Inr []" for typed
    by simp
  from edit_var_keep [OF _ m _ o, of "[str ''FOO'', str ''   '']" "str ''   ''" "[]"]
  obtain w' where e: "edit_var (foo_world [str ''FOO'', str ''   '']) foo_store = Inr (w', foo_store)"
    by (auto simp: strip_examples)
  from add_accepts_empty_edit_does_not [where w = "foo_world [str ''FOO'', str ''   '']"
      and raw_key = "str ''FOO''" and raw_value = "str ''   ''" and rest = "[]"
      and st = foo_store and w' = w' and st' = foo_store, THEN conjunct2, THEN conjunct2] e
  show "\<exists>w' st'. edit_var (foo_world [str ''FOO'', str ''   '']) foo_store = Inr (w', st') \<and>
      st' = foo_store \<and> map_of (env_vars st') (str ''FOO'') = Some (str ''bar'')"
    by simp
  let ?st = "foo_store\<lparr>env_vars := [(str ''FOO'', str ''bar''), (str ''NEW'', [])]\<rparr>"
  have m2: "map_of (env_vars ?st) (strip (str ''NEW'')) = Some []"
    by (simp add: strip_examples str_neq_examples)
  have o2: "open_write (files (foo_world typed) (env_file ?st)) = Inr []" for typed
    by simp
  from edit_var_keep [OF _ m2 _ o2, of "[str ''NEW'', []]" "[]" "[]"]
  obtain w2 where e2: "edit_var (foo_world [str ''NEW'', []]) ?st = Inr (w2, ?st)"
    by auto
  have v2: "map_of (env_vars ?st) (str ''NEW'') = Some []"
    by (simp add: str_neq_examples)
  from add_accepts_empty_edit_does_not [where w = "foo_world [str ''NEW'', []]"
      and st = ?st and w' = w2 and st' = ?st and k = "str ''NEW''",
      THEN conjunct2, THEN conjunct1] e2 v2
  show "\<exists>w' st'. edit_var (foo_world [str ''NEW'', []]) ?st = Inr (w', st') \<and>
      map_of (env_vars st') (str ''NEW'') = Some [] \<and>
      map_of [(str ''FOO'', str ''bar''), (str ''NEW'', [])] (str ''NEW'') = Some []"
    by auto
qed

section \<open>Stored text is trimmed\<close>

lemma set_update_subset: "set (AList.update k v d) \<subseteq> insert (k, v) (set d)"
  by (induction d) auto

lemma set_delete_subset: "set (AList.delete k d) \<subseteq> set d"
  by (induction d) auto

lemma normalized_Nil [simp]: "normalized []"
  by (simp add: normalized_def)

lemma normalized_update:
  "normalized d \<Longrightarrow> trimmed k \<Longrightarrow> trimmed v \<Longrightarrow> normalized (AList.update k v d)"
  using set_update_subset [of k v d] by (auto simp: normalized_def)

lemma normalized_delete: "normalized d \<Longrightarrow> normalized (AList.delete k d)"
  using set_delete_subset [of k d] by (auto simp: normalized_def)

lemma normalized_lookup: "normalized d \<Longrightarrow> map_of d k = Some v \<Longrightarrow> trimmed v"
  by (auto simp: normalized_def dest: map_of_SomeD)

lemma normalized_load_line: "normalized d \<Longrightarrow> normalized (load_line raw d)"
  by (auto simp: load_line_def Let_def split_maxsplit1_def intro!: normalized_update trimmed_strip)

lemma normalized_fold_load_line: "normalized d \<Longrightarrow> normalized (fold load_line ls d)"
  by (induction ls arbitrary: d) (auto intro: normalized_load_line)

lemma load_env_vars_normalized:
  "load_env_vars w st = Inr (w', st') \<Longrightarrow> normalized (env_vars st')"
  by (auto simp: load_env_vars_def Let_def normalized_fold_load_line
      split: sum.splits exc.splits)

lemma add_var_normalized:
  "normalized (env_vars st) \<Longrightarrow> add_var w st = Inr (w', st') \<Longrightarrow> normalized (env_vars st')"
  by (auto simp: add_var_def py_input_def Let_def setup_readline_def
      split: list.splits sum.splits if_splits intro!: normalized_update trimmed_strip)

lemma edit_var_normalized:
  "normalized (env_vars st) \<Longrightarrow> edit_var w st = Inr (w', st') \<Longrightarrow> normalized (env_vars st')"
  by (auto simp: edit_var_def py_input_def Let_def
      split: list.splits sum.splits if_splits option.splits
      intro!: normalized_update trimmed_strip elim: normalized_lookup)

lemma delete_var_normalized:
  "normalized (env_vars st) \<Longrightarrow> delete_var w st = Inr (w', st') \<Longrightarrow> normalized (env_vars st')"
  by (auto simp: delete_var_def py_input_def Let_def setup_readline_def
      split: list.splits sum.splits if_splits intro!: normalized_delete)

lemma load_example:
  "fold load_line (py_lines (universal_newlines (str ''  KEY =  some value  '' @ [13, 10]))) []
     = [(str ''KEY'', str ''some value'')]"
  by (simp add: str_def load_line_def split_maxsplit1_def strip_def lstrip_def rstrip_def
      isspace_def)

text \<open>
  C9. No key and no value held in the mapping has white space at either end. Loading
  establishes this, whatever the file holds (\<open>load_env_vars\<close> and the constructor), and
  \<open>add_var\<close>, \<open>edit_var\<close> and \<open>delete_var\<close> preserve it, whatever the user types.
  (\<open>list_vars\<close> does not touch the store.)
\<close>

theorem stored_text_is_trimmed:
  "(load_env_vars w st = Inr (w', st') \<longrightarrow> normalized (env_vars st')) \<and>
   (EnvManager w path = Inr (w', st') \<longrightarrow> normalized (env_vars st')) \<and>
   (normalized (env_vars st) \<and>
    (add_var w st = Inr (w', st') \<or> edit_var w st = Inr (w', st') \<or>
     delete_var w st = Inr (w', st')) \<longrightarrow> normalized (env_vars st'))"
proof (intro conjI impI)
  assume "load_env_vars w st = Inr (w', st')"
  then show "normalized (env_vars st')" by (rule load_env_vars_normalized)
next
  assume "EnvManager w path = Inr (w', st')"
  then show "normalized (env_vars st')"
    by (auto simp: EnvManager_def setup_readline_def split: sum.splits
        dest: load_env_vars_normalized)
next
  assume "normalized (env_vars st) \<and>
    (add_var w st = Inr (w', st') \<or> edit_var w st = Inr (w', st') \<or>
     delete_var w st = Inr (w', st'))"
  then show "normalized (env_vars st')"
    using add_var_normalized edit_var_normalized delete_var_normalized by blast
qed

theorem stored_text_is_trimmed_witness:
  "(\<exists>w' st'. EnvManager (w0\<lparr>files := (\<lambda>p. Regular (str ''  KEY =  some value  '' @ [13, 10]))\<rparr>)
                (str ''.env.example'') = Inr (w', st') \<and>
      env_vars st' = [(str ''KEY'', str ''some value'')] \<and> normalized (env_vars st')) \<and>
   (\<exists>w' st'. add_var (foo_world [str '' NEW '', str '' 1 '']) foo_store = Inr (w', st') \<and>
      env_vars st' = [(str ''FOO'', str ''bar''), (str ''NEW'', str ''1'')] \<and>
      normalized (env_vars foo_store) \<and> normalized (env_vars st'))"
proof (intro conjI)
  let ?w = "w0\<lparr>files := (\<lambda>p. Regular (str ''  KEY =  some value  '' @ [13, 10]))\<rparr>"
  have "\<exists>w'. EnvManager ?w (str ''.env.example'') =
          Inr (w', \<lparr>env_file = str ''.env.example'',
                    env_vars = [(str ''KEY'', str ''some value'')],
                    completer = [str ''KEY'']\<rparr>)"
    by (simp add: EnvManager_def load_env_vars_def setup_readline_def load_example)
  then obtain w' where e: "EnvManager ?w (str ''.env.example'') =
          Inr (w', \<lparr>env_file = str ''.env.example'',
                    env_vars = [(str ''KEY'', str ''some value'')],
                    completer = [str ''KEY'']\<rparr>)" ..
  from stored_text_is_trimmed [THEN conjunct2, THEN conjunct1, rule_format, OF e] e
  show "\<exists>w' st'. EnvManager ?w (str ''.env.example'') = Inr (w', st') \<and>
      env_vars st' = [(str ''KEY'', str ''some value'')] \<and> normalized (env_vars st')"
    by auto
next
  have s: "strip (str '' NEW '') = str ''NEW''"
    by (simp add: str_def strip_def lstrip_def rstrip_def isspace_def)
  have h2: "strip (str '' NEW '') \<noteq> []" by (simp add: s str_neq_examples)
  have h3: "strip (str '' NEW '') \<notin> set (map fst (env_vars foo_store))"
    by (simp add: s str_neq_examples)
  have h4: "open_write (files (foo_world [str '' NEW '', str '' 1 '']) (env_file foo_store)) = Inr []"
    by simp
  from add_var_new [OF _ h2 h3 h4, of "str '' 1 ''" "[]"] obtain w' where
    a: "add_var (foo_world [str '' NEW '', str '' 1 '']) foo_store =
      Inr (w', foo_store\<lparr>env_vars := env_vars foo_store @ [(str ''NEW'', str ''1'')],
              completer := map fst (env_vars foo_store) @ [str ''NEW'']\<rparr>)"
    unfolding s strip_examples by auto
  have n: "normalized (env_vars foo_store)"
    by (simp add: normalized_def trimmed_def isspace_def str_def)
  from stored_text_is_trimmed [THEN conjunct2, THEN conjunct2, rule_format,
      OF conjI [OF n disjI1 [OF a]]] a n
  show "\<exists>w' st'. add_var (foo_world [str '' NEW '', str '' 1 '']) foo_store = Inr (w', st') \<and>
      env_vars st' = [(str ''FOO'', str ''bar''), (str ''NEW'', str ''1'')] \<and>
      normalized (env_vars foo_store) \<and> normalized (env_vars st')"
    by auto
qed

section \<open>Loading parses the file line by line\<close>

lemma startswith_hd: "s \<noteq> [] \<Longrightarrow> startswith s c \<longleftrightarrow> hd s = c"
  by (cases s) auto

lemma split_maxsplit1_take_drop:
  "sep \<in> set s \<Longrightarrow>
   split_maxsplit1 s sep =
     [take (length (takeWhile (\<lambda>c. c \<noteq> sep) s)) s,
      drop (Suc (length (takeWhile (\<lambda>c. c \<noteq> sep) s))) s]"
proof -
  have "take (length (takeWhile (\<lambda>c. c \<noteq> sep) s)) s = takeWhile (\<lambda>c. c \<noteq> sep) s"
    by (rule takeWhile_eq_take [symmetric])
  moreover have "drop (Suc (length (takeWhile (\<lambda>c. c \<noteq> sep) s))) s =
      tl (dropWhile (\<lambda>c. c \<noteq> sep) s)"
    by (simp add: dropWhile_eq_drop drop_Suc tl_drop)
  moreover assume "sep \<in> set s"
  ultimately show ?thesis by (simp add: split_maxsplit1_def)
qed

lemma load_line_spec_entry:
  "load_line raw d = (case spec_entry raw of None \<Rightarrow> d | Some (k, v) \<Rightarrow> AList.update k v d)"
proof (cases "strip raw = []")
  case True
  then show ?thesis by (simp add: load_line_def spec_entry_def)
next
  case ne: False
  show ?thesis
  proof (cases "61 \<in> set (strip raw)")
    case True
    with ne show ?thesis
      by (simp add: load_line_def spec_entry_def Let_def startswith_hd split_maxsplit1_take_drop)
  next
    case False
    with ne show ?thesis
      by (simp add: load_line_def spec_entry_def Let_def startswith_hd split_maxsplit1_def)
  qed
qed

lemma map_of_fold_load_line:
  "map_of (fold load_line ls d) = map_of (rev (List.map_filter spec_entry ls) @ d)"
proof (induction ls arbitrary: d)
  case Nil
  then show ?case by simp
next
  case (Cons l ls)
  show ?case
  proof (cases "spec_entry l")
    case None
    with Cons show ?thesis by (simp add: load_line_spec_entry)
  next
    case (Some e)
    obtain k v where e: "e = (k, v)" by (cases e)
    have "map_of (fold load_line (l # ls) d) = map_of (fold load_line ls (AList.update k v d))"
      by (simp add: load_line_spec_entry Some e)
    also have "\<dots> = map_of (rev (List.map_filter spec_entry ls) @ AList.update k v d)"
      by (rule Cons.IH)
    also have "\<dots> = map_of (rev (List.map_filter spec_entry ls) @ (k, v) # d)"
      by (simp add: update_conv' fun_eq_iff map_add_def split: option.splits)
    finally show ?thesis by (simp add: Some e)
  qed
qed

lemma distinct_load_line: "distinct (map fst d) \<Longrightarrow> distinct (map fst (load_line raw d))"
  by (simp add: load_line_spec_entry distinct_update split: option.splits prod.splits)

lemma distinct_fold_load_line:
  "distinct (map fst d) \<Longrightarrow> distinct (map fst (fold load_line ls d))"
  by (induction ls arbitrary: d) (auto intro: distinct_load_line)

lemma load_tolerance_text:
  "fold load_line (py_lines (universal_newlines tolerance_text)) [] = [(str ''FOO'', str ''bar'')]"
  by (simp add: tolerance_text_def str_def load_line_def split_maxsplit1_def strip_def
      lstrip_def rstrip_def isspace_def)

lemma load_duplicate_text:
  "fold load_line (py_lines (universal_newlines duplicate_text)) []
     = [(str ''A'', str ''2''), (str ''B'', str ''x=y'')]"
  by (simp add: duplicate_text_def str_def load_line_def split_maxsplit1_def strip_def
      lstrip_def rstrip_def isspace_def)

text \<open>
  C3. For every content of the backing file, the constructor (through \<open>load_env_vars\<close>)
  returns a store whose mapping is what the specification says of the file: blank lines
  and lines starting with \<open>#\<close> are skipped, a remaining line without \<open>=\<close> is skipped
  silently, every other line is split at its first \<open>=\<close> into key and value, both
  trimmed, and a later line for a key overrides an earlier one (\<open>spec_load\<close>). The keys
  of the store are distinct and the file system is not changed. The four-line file of
  the specification loads to exactly \<open>{FOO: "bar"}\<close>.
\<close>

theorem load_parses_lines:
  assumes "open_read (files w path) = Inr text"
  shows "\<exists>w' st'. EnvManager w path = Inr (w', st') \<and>
           map_of (env_vars st') = spec_load text \<and>
           distinct (map fst (env_vars st')) \<and> files w' = files w"
  using assms
  by (simp add: EnvManager_def load_env_vars_def setup_readline_def spec_load_def
      map_of_fold_load_line distinct_fold_load_line)

theorem load_parses_lines_witness:
  "(\<exists>w' st'. EnvManager (w0\<lparr>files := (\<lambda>p. Regular tolerance_text)\<rparr>) (str ''.env.example'')
               = Inr (w', st') \<and>
      env_vars st' = [(str ''FOO'', str ''bar'')] \<and>
      spec_load tolerance_text = map_of [(str ''FOO'', str ''bar'')]) \<and>
   (\<exists>w' st'. EnvManager (w0\<lparr>files := (\<lambda>p. Regular duplicate_text)\<rparr>) (str ''.env.example'')
               = Inr (w', st') \<and>
      env_vars st' = [(str ''A'', str ''2''), (str ''B'', str ''x=y'')] \<and>
      spec_load duplicate_text = map_of [(str ''A'', str ''2''), (str ''B'', str ''x=y'')])"
proof (intro conjI)
  let ?w = "w0\<lparr>files := (\<lambda>p. Regular tolerance_text)\<rparr>"
  have o: "open_read (files ?w (str ''.env.example'')) = Inr tolerance_text" by simp
  have "\<exists>w'. EnvManager ?w (str ''.env.example'') =
          Inr (w', \<lparr>env_file = str ''.env.example'', env_vars = [(str ''FOO'', str ''bar'')],
                    completer = [str ''FOO'']\<rparr>)"
    by (simp add: EnvManager_def load_env_vars_def setup_readline_def load_tolerance_text)
  with load_parses_lines [OF o]
  show "\<exists>w' st'. EnvManager ?w (str ''.env.example'') = Inr (w', st') \<and>
      env_vars st' = [(str ''FOO'', str ''bar'')] \<and>
      spec_load tolerance_text = map_of [(str ''FOO'', str ''bar'')]"
    by auto
next
  let ?w = "w0\<lparr>files := (\<lambda>p. Regular duplicate_text)\<rparr>"
  have o: "open_read (files ?w (str ''.env.example'')) = Inr duplicate_text" by simp
  have "\<exists>w'. EnvManager ?w (str ''.env.example'') =
          Inr (w', \<lparr>env_file = str ''.env.example'',
                    env_vars = [(str ''A'', str ''2''), (str ''B'', str ''x=y'')],
                    completer = [str ''A'', str ''B'']\<rparr>)"
    by (simp add: EnvManager_def load_env_vars_def setup_readline_def load_duplicate_text)
  with load_parses_lines [OF o]
  show "\<exists>w' st'. EnvManager ?w (str ''.env.example'') = Inr (w', st') \<and>
      env_vars st' = [(str ''A'', str ''2''), (str ''B'', str ''x=y'')] \<and>
      spec_load duplicate_text = map_of [(str ''A'', str ''2''), (str ''B'', str ''x=y'')]"
    by auto
qed

section \<open>Round trip through the backing file\<close>

lemma universal_newlines_id: "13 \<notin> set s \<Longrightarrow> universal_newlines s = s"
  by (induction s rule: universal_newlines.induct) auto

lemma py_lines_line: "10 \<notin> set l \<Longrightarrow> py_lines (l @ 10 # rest) = (l @ [10]) # py_lines rest"
  by (induction l) auto

lemma py_lines_serialize:
  "\<forall>e \<in> set d. 10 \<notin> set (fst e) \<and> 10 \<notin> set (snd e) \<Longrightarrow>
   py_lines (serialize d) = map (\<lambda>(key, value). key @ 61 # value @ [10]) d"
proof (induction d)
  case Nil
  then show ?case by (simp add: serialize_def)
next
  case (Cons e d)
  obtain k v where e: "e = (k, v)" by (cases e)
  from Cons.prems e have "10 \<notin> set (k @ 61 # v)" by auto
  then have "py_lines ((k @ 61 # v) @ 10 # serialize d) = ((k @ 61 # v) @ [10]) # py_lines (serialize d)"
    by (rule py_lines_line)
  with Cons e show ?case by (simp add: serialize_def)
qed

lemma set_serialize: "set (serialize d) \<subseteq> {61, 10} \<union> (\<Union>e \<in> set d. set (fst e) \<union> set (snd e))"
  by (induction d) (auto simp: serialize_def)

lemma not_isspace_61: "\<not> isspace 61"
  by (simp add: isspace_def)

lemma isspace_10: "isspace 10"
  by (simp add: isspace_def)

lemma strip_entry_line:
  assumes "trimmed k" "trimmed v"
  shows "strip (k @ 61 # v @ [10]) = k @ 61 # v"
proof -
  have l: "lstrip (k @ 61 # v @ [10]) = k @ 61 # v @ [10]"
    using assms(1) by (cases k) (auto simp: lstrip_def trimmed_def not_isspace_61)
  have "dropWhile isspace (rev (k @ 61 # v @ [10])) = rev (k @ 61 # v)"
  proof (cases v rule: rev_cases)
    case Nil
    then show ?thesis by (simp add: isspace_10 not_isspace_61)
  next
    case (snoc vs x)
    with assms(2) have "\<not> isspace x" by (simp add: trimmed_def)
    with snoc show ?thesis by (simp add: isspace_10)
  qed
  then have "rstrip (k @ 61 # v @ [10]) = k @ 61 # v"
    by (simp add: rstrip_def)
  with l show ?thesis by (simp add: strip_def)
qed

lemma split_at_first:
  "sep \<notin> set k \<Longrightarrow>
   takeWhile (\<lambda>c. c \<noteq> sep) (k @ sep # v) = k \<and>
   dropWhile (\<lambda>c. c \<noteq> sep) (k @ sep # v) = sep # v"
  by (induction k) auto

lemma load_line_entry:
  assumes "storable (k, v)"
  shows "load_line (k @ 61 # v @ [10]) d = AList.update k v d"
proof -
  from assms have tk: "trimmed k" and tv: "trimmed v" and nk: "61 \<notin> set k"
    and hk: "\<not> startswith k 35"
    by (simp_all add: storable_def)
  have s: "strip (k @ 61 # v @ [10]) = k @ 61 # v"
    using tk tv by (rule strip_entry_line)
  have h: "\<not> startswith (k @ 61 # v) 35"
    using hk by (cases k) auto
  have sp: "split_maxsplit1 (k @ 61 # v) 61 = [k, v]"
    using nk by (simp add: split_maxsplit1_def split_at_first)
  from s h sp tk tv show ?thesis
    by (simp add: load_line_def strip_trimmed)
qed

lemma fold_load_entries:
  assumes "distinct (map fst (d @ m))" "\<forall>e \<in> set m. storable e"
  shows "fold load_line (map (\<lambda>(key, value). key @ 61 # value @ [10]) m) d = d @ m"
  using assms
proof (induction m arbitrary: d)
  case Nil
  then show ?case by simp
next
  case (Cons e m)
  obtain k v where e: "e = (k, v)" by (cases e)
  from Cons.prems e have st: "storable (k, v)" by simp
  from Cons.prems e have "k \<notin> set (map fst d)" by auto
  then have u: "AList.update k v d = d @ [(k, v)]" by (rule update_new)
  from Cons.prems e have d': "distinct (map fst ((d @ [(k, v)]) @ m))" by simp
  from Cons.prems have "\<forall>e \<in> set m. storable e" by simp
  with Cons.IH [OF d'] have "fold load_line (map (\<lambda>(key, value). key @ 61 # value @ [10]) m)
      (d @ [(k, v)]) = (d @ [(k, v)]) @ m" by simp
  with u st e show ?case by (simp add: load_line_entry)
qed

text \<open>
  C1, as amended. For every mapping held in a store whose keys and values are trimmed,
  can be encoded in the file's encoding and contain no line break, and whose keys contain
  no \<open>=\<close> and do not begin with \<open>#\<close> (\<open>storable\<close>), saving it and then constructing a
  fresh store on the same path yields exactly that mapping, in the same order. The keys
  of a mapping are distinct, and the backing file is assumed to open for writing.
\<close>

theorem save_then_load_roundtrip:
  assumes "distinct (map fst (env_vars st))"
    and "\<forall>e \<in> set (env_vars st). storable e"
    and "open_write (files w (env_file st)) = Inr []"
  shows "save_then_load w st = Inr (env_vars st)"
proof -
  from assms(2) have enc: "encodable_map (env_vars st)"
    by (auto simp: encodable_map_def list_all_iff storable_def)
  from assms(2) have n13: "13 \<notin> set (serialize (env_vars st))"
    using set_serialize [of "env_vars st"] by (auto simp: storable_def)
  from assms(2) have l: "py_lines (serialize (env_vars st)) =
      map (\<lambda>(key, value). key @ 61 # value @ [10]) (env_vars st)"
    by (intro py_lines_serialize) (auto simp: storable_def)
  have f: "fold load_line (map (\<lambda>(key, value). key @ 61 # value @ [10]) (env_vars st)) []
      = env_vars st"
    using fold_load_entries [of "[]" "env_vars st"] assms(1,2) by simp
  show ?thesis
    by (simp add: save_then_load_def save_env_vars_ok [OF assms(3) enc] EnvManager_def
        load_env_vars_def setup_readline_def universal_newlines_id [OF n13] l f)
qed

theorem save_then_load_roundtrip_witness:
  "distinct (map fst [(str ''FOO'', str ''bar''), (str ''EMPTY'', []), ([], str ''a = b'')]) \<and>
   storable (str ''FOO'', str ''bar'') \<and> storable (str ''EMPTY'', []) \<and>
   storable ([], str ''a = b'') \<and>
   save_then_load (foo_world [])
     (foo_store\<lparr>env_vars := [(str ''FOO'', str ''bar''), (str ''EMPTY'', []), ([], str ''a = b'')]\<rparr>)
     = Inr [(str ''FOO'', str ''bar''), (str ''EMPTY'', []), ([], str ''a = b'')]"
proof -
  let ?m = "[(str ''FOO'', str ''bar''), (str ''EMPTY'', []), ([], str ''a = b'')]"
  let ?st = "foo_store\<lparr>env_vars := ?m\<rparr>"
  have d: "distinct (map fst (env_vars ?st))"
    by (simp add: str_def)
  have s1: "storable (str ''FOO'', str ''bar'')" and s2: "storable (str ''EMPTY'', [])"
    and s3: "storable ([], str ''a = b'')"
    by (simp_all add: storable_def trimmed_def isspace_def str_def utf8_encodable_def)
  then have s: "\<forall>e \<in> set (env_vars ?st). storable e" by simp
  have o: "open_write (files (foo_world []) (env_file ?st)) = Inr []" by simp
  from save_then_load_roundtrip [OF d s o] d s1 s2 s3 show ?thesis by simp
qed

text \<open>
  C1 as stated does not hold of every mapping a store can hold. \<open>add_var\<close> accepts the
  key \<open>A=B\<close>; the store \<open>{A=B: "c"}\<close> is trimmed already, it is saved as the line
  \<open>A=B=c\<close>, and a fresh store loads \<open>{A: "B=c"}\<close>. A key starting with \<open>#\<close> is saved as a
  line that loading takes for a comment, a carriage return inside a value ends the
  line when the file is read back, and a value holding a lone surrogate makes the save
  raise.
\<close>

theorem roundtrip_counterexample:
  "map_sum id (env_vars \<circ> snd)
     (add_var (w0\<lparr>stdin := [str ''A=B'', str ''c'']\<rparr>)
        \<lparr>env_file = str ''.env.example'', env_vars = [], completer = []\<rparr>)
     = Inr [(str ''A=B'', str ''c'')] \<and>
   normalized [(str ''A=B'', str ''c'')] \<and>
   save_then_load w0
     \<lparr>env_file = str ''.env.example'', env_vars = [(str ''A=B'', str ''c'')],
      completer = [str ''A=B'']\<rparr>
     = Inr [(str ''A'', str ''B=c'')] \<and>
   [(str ''A'', str ''B=c'')] \<noteq> [(str ''A=B'', str ''c'')] \<and>
   save_then_load w0
     \<lparr>env_file = str ''.env.example'', env_vars = [(str ''#X'', str ''1'')],
      completer = [str ''#X'']\<rparr>
     = Inr [] \<and>
   save_then_load w0
     \<lparr>env_file = str ''.env.example'', env_vars = [(str ''K'', str ''a'' @ [13] @ str ''b'')],
      completer = [str ''K'']\<rparr>
     = Inr [(str ''K'', str ''a'')] \<and>
   save_then_load w0
     \<lparr>env_file = str ''.env.example'', env_vars = [(str ''K'', [56575])],
      completer = [str ''K'']\<rparr>
     = Inl UnicodeEncodeError"
proof (intro conjI)
  have s: "strip (str ''A=B'') = str ''A=B''" "strip (str ''c'') = str ''c''"
    by (simp_all add: str_def strip_def lstrip_def rstrip_def isspace_def)
  let ?w = "w0\<lparr>stdin := [str ''A=B'', str ''c'']\<rparr>"
  let ?st = "\<lparr>env_file = str ''.env.example'', env_vars = [], completer = []\<rparr>"
  have h1: "stdin ?w = [str ''A=B'', str ''c'']" by simp
  have h2: "strip (str ''A=B'') \<noteq> []" by (simp add: s) (simp add: str_def)
  have h3: "strip (str ''A=B'') \<notin> set (map fst (env_vars ?st))" by simp
  have h4: "open_write (files ?w (env_file ?st)) = Inr []" by (simp add: w0_def)
  have h5: "encodable_map (env_vars ?st)" by simp
  have h6: "utf8_encodable (strip (str ''A=B''))" and h7: "utf8_encodable (strip (str ''c''))"
    by (simp_all add: s)
  from add_var_new [OF h1 h2 h3 h4 h5 h6 h7] obtain w' where
    "add_var ?w ?st = Inr (w', ?st\<lparr>env_vars := env_vars ?st @ [(str ''A=B'', str ''c'')],
        completer := map fst (env_vars ?st) @ [str ''A=B'']\<rparr>)"
    unfolding s by blast
  then show "map_sum id (env_vars \<circ> snd) (add_var ?w ?st) = Inr [(str ''A=B'', str ''c'')]"
    by simp
  show "normalized [(str ''A=B'', str ''c'')]"
    by (simp add: normalized_def trimmed_def isspace_def str_def)
  show "save_then_load w0
     \<lparr>env_file = str ''.env.example'', env_vars = [(str ''A=B'', str ''c'')],
      completer = [str ''A=B'']\<rparr>
     = Inr [(str ''A'', str ''B=c'')]"
    by (simp add: save_then_load_def save_env_vars_def w0_def EnvManager_def load_env_vars_def
        setup_readline_def str_def load_line_def split_maxsplit1_def strip_def lstrip_def
        rstrip_def isspace_def utf8_encodable_def)
  show "[(str ''A'', str ''B=c'')] \<noteq> [(str ''A=B'', str ''c'')]"
    by (simp add: str_def)
  show "save_then_load w0
     \<lparr>env_file = str ''.env.example'', env_vars = [(str ''#X'', str ''1'')],
      completer = [str ''#X'']\<rparr>
     = Inr []"
    by (simp add: save_then_load_def save_env_vars_def w0_def EnvManager_def load_env_vars_def
        setup_readline_def str_def load_line_def split_maxsplit1_def strip_def lstrip_def
        rstrip_def isspace_def utf8_encodable_def)
  show "save_then_load w0
     \<lparr>env_file = str ''.env.example'', env_vars = [(str ''K'', str ''a'' @ [13] @ str ''b'')],
      completer = [str ''K'']\<rparr>
     = Inr [(str ''K'', str ''a'')]"
    by (simp add: save_then_load_def save_env_vars_def w0_def EnvManager_def load_env_vars_def
        setup_readline_def str_def load_line_def split_maxsplit1_def strip_def lstrip_def
        rstrip_def isspace_def utf8_encodable_def)
  show "save_then_load w0
     \<lparr>env_file = str ''.env.example'', env_vars = [(str ''K'', [56575])],
      completer = [str ''K'']\<rparr>
     = Inl UnicodeEncodeError"
    by (simp add: save_then_load_def save_env_vars_def w0_def utf8_encodable_def str_def)
qed

end
